theory Spec2Isabelle
  imports Main "HOL-Library.Word"
begin

unbundle bit_operations_syntax

section \<open>Machine model\<close>

text \<open>
  The C sources under \<^verbatim>\<open>docs/hardware-knobs\<close> talk to the hardware through the
  per-CPU device \<^verbatim>\<open>/dev/cpu/N/msr\<close>.  A \<^verbatim>\<open>uint64_t\<close> is a \<open>64 word\<close>, a
  \<^verbatim>\<open>uint32_t\<close> register address a \<open>32 word\<close>.  A C \<^verbatim>\<open>int\<close> (CPU index, class id,
  monitoring id, return code) is an \<open>int\<close>; the conversions the code applies to it
  are written out: \<^verbatim>\<open>(uint64_t)x\<close> is \<open>word_of_int x\<close> (sign extension of a negative
  value), \<^verbatim>\<open>(int)w\<close> reads the low 32 bits as two's complement.
\<close>

type_synonym u64 = "64 word"
type_synonym u32 = "32 word"

text \<open>common.h: the error codes.\<close>

definition SUCCESS :: int where "SUCCESS = 0"
definition ERROR_PERMISSION :: int where "ERROR_PERMISSION = - 1"
definition ERROR_NOT_SUPPORTED :: int where "ERROR_NOT_SUPPORTED = - 2"
definition ERROR_INVALID_PARAM :: int where "ERROR_INVALID_PARAM = - 3"
definition ERROR_SYSTEM :: int where "ERROR_SYSTEM = - 4"

text \<open>msr_utils.h: the register addresses the RDT code uses.\<close>

definition MSR_IA32_L3_MASK_0 :: int where "MSR_IA32_L3_MASK_0 = 0xC90"
definition MSR_IA32_PQR_ASSOC :: int where "MSR_IA32_PQR_ASSOC = 0xC8F"
definition MSR_IA32_QM_EVTSEL :: int where "MSR_IA32_QM_EVTSEL = 0xC8D"
definition MSR_IA32_QM_CTR :: int where "MSR_IA32_QM_CTR = 0xC8E"
definition MSR_IA32_MBA_THRTL_MSR :: int where "MSR_IA32_MBA_THRTL_MSR = 0xD50"

text \<open>rdt_test.c and rdt_monitor.c: the identifier bounds.\<close>

definition MAX_CLOS :: int where "MAX_CLOS = 16"
definition MAX_RMID :: int where "MAX_RMID = 256"

text \<open>The conversion of an \<^verbatim>\<open>int\<close> expression to the \<^verbatim>\<open>uint32_t msr\<close> parameter.\<close>

definition to_u32 :: "int \<Rightarrow> u32" where
  "to_u32 x = word_of_int x"

text \<open>
  One entry per call of \<^verbatim>\<open>msr_read_cpu\<close> or \<^verbatim>\<open>msr_write_cpu\<close>, in program order, with the
  outcome of the call.
\<close>

datatype access = Rd int u32 bool | Wr int u32 u64 bool

text \<open>
  The machine: the number of processors \<^verbatim>\<open>get_cpu_count()\<close> reports, which device
  nodes \<^verbatim>\<open>msr_open\<close> can open, which seek-and-read or seek-and-write calls the driver
  accepts, the register contents, the value the counter register presents for each
  event selector, and the log of accesses.  Registers keep the value written; a read
  of \<^verbatim>\<open>IA32_QM_CTR\<close> presents the counter chosen by the selector held in
  \<^verbatim>\<open>IA32_QM_EVTSEL\<close> of the same CPU.
\<close>

record machine =
  cpu_count :: int
  dev_ok :: "int \<Rightarrow> bool"
  rd_ok :: "int \<Rightarrow> u32 \<Rightarrow> bool"
  wr_ok :: "int \<Rightarrow> u32 \<Rightarrow> u64 \<Rightarrow> bool"
  regs :: "int \<Rightarrow> u32 \<Rightarrow> u64"
  qm_ctr :: "int \<Rightarrow> u64 \<Rightarrow> u64"
  trace :: "access list"

definition hw_value :: "machine \<Rightarrow> int \<Rightarrow> u32 \<Rightarrow> u64" where
  "hw_value m cpu msr =
     (if msr = to_u32 MSR_IA32_QM_CTR
      then qm_ctr m cpu (regs m cpu (to_u32 MSR_IA32_QM_EVTSEL))
      else regs m cpu msr)"

text \<open>
  \<^verbatim>\<open>msr_read_cpu(cpu, msr, &value)\<close>: open, read, close.  The last argument is the
  content of \<^verbatim>\<open>*value\<close> before the call, which a failed call leaves in place.
\<close>

definition msr_read_cpu :: "machine \<Rightarrow> int \<Rightarrow> u32 \<Rightarrow> u64 \<Rightarrow> int \<times> u64 \<times> machine" where
  "msr_read_cpu m cpu msr old =
     (if \<not> dev_ok m cpu then
        (ERROR_SYSTEM, old, m\<lparr>trace := trace m @ [Rd cpu msr False]\<rparr>)
      else if \<not> rd_ok m cpu msr then
        (ERROR_SYSTEM, old, m\<lparr>trace := trace m @ [Rd cpu msr False]\<rparr>)
      else
        (SUCCESS, hw_value m cpu msr, m\<lparr>trace := trace m @ [Rd cpu msr True]\<rparr>))"

text \<open>\<^verbatim>\<open>msr_write_cpu(cpu, msr, value)\<close>: open, write, close.\<close>

definition msr_write_cpu :: "machine \<Rightarrow> int \<Rightarrow> u32 \<Rightarrow> u64 \<Rightarrow> int \<times> machine" where
  "msr_write_cpu m cpu msr v =
     (if \<not> dev_ok m cpu then
        (ERROR_SYSTEM, m\<lparr>trace := trace m @ [Wr cpu msr v False]\<rparr>)
      else if \<not> wr_ok m cpu msr v then
        (ERROR_SYSTEM, m\<lparr>trace := trace m @ [Wr cpu msr v False]\<rparr>)
      else
        (SUCCESS, m\<lparr>regs := (regs m)(cpu := (regs m cpu)(msr := v)),
                      trace := trace m @ [Wr cpu msr v True]\<rparr>))"

section \<open>Field manipulation (msr_utils.c)\<close>

text \<open>
  \<^verbatim>\<open>x << k\<close> and \<^verbatim>\<open>x >> k\<close> on a \<^verbatim>\<open>uint64_t\<close> with an \<^verbatim>\<open>int\<close> count: C leaves the
  result undefined for a negative count or a count of 64 or more, which is \<open>None\<close> here.
\<close>

definition shl64 :: "u64 \<Rightarrow> int \<Rightarrow> u64 option" where
  "shl64 w k = (if 0 \<le> k \<and> k < 64 then Some (push_bit (nat k) w) else None)"

definition shr64 :: "u64 \<Rightarrow> int \<Rightarrow> u64 option" where
  "shr64 w k = (if 0 \<le> k \<and> k < 64 then Some (drop_bit (nat k) w) else None)"

definition msr_get_field :: "u64 \<Rightarrow> int \<Rightarrow> int \<Rightarrow> u64 option" where
  "msr_get_field v start_bit num_bits =
     (case shl64 1 num_bits of None \<Rightarrow> None
      | Some one \<Rightarrow>
          let mask = one - 1 in
          (case shr64 v start_bit of None \<Rightarrow> None
           | Some sh \<Rightarrow> Some (sh AND mask)))"

definition msr_set_field :: "u64 \<Rightarrow> int \<Rightarrow> int \<Rightarrow> u64 \<Rightarrow> u64 option" where
  "msr_set_field v start_bit num_bits field_value =
     (case shl64 1 num_bits of None \<Rightarrow> None
      | Some one \<Rightarrow>
          let mask = one - 1 in
          (case shl64 mask start_bit of None \<Rightarrow> None
           | Some hole \<Rightarrow>
               let v1 = v AND NOT hole in
               (case shl64 (field_value AND mask) start_bit of None \<Rightarrow> None
                | Some fld \<Rightarrow> Some (v1 OR fld))))"

section \<open>Batch operations (msr_utils.c)\<close>

text \<open>
  The loop \<^verbatim>\<open>for (int i = ...; i < cpu_count; i++) if (msr_write_cpu(i, msr, value) !=
  SUCCESS) return ERROR_SYSTEM;\<close> shared by \<^verbatim>\<open>msr_write_all_cpus\<close> and
  \<^verbatim>\<open>rdt_write_l3_mask\<close>.  The flag tells whether the loop ran to its end.
\<close>

function write_loop :: "machine \<Rightarrow> u32 \<Rightarrow> u64 \<Rightarrow> int \<Rightarrow> int \<Rightarrow> bool \<times> machine" where
  "write_loop m msr v i n =
     (if i < n then
        (case msr_write_cpu m i msr v of
           (rc, m') \<Rightarrow> if rc \<noteq> SUCCESS then (False, m') else write_loop m' msr v (i + 1) n)
      else (True, m))"
  by pat_completeness auto
termination
  by (relation "measure (\<lambda>(m, msr, v, i, n). nat (n - i))") auto

declare write_loop.simps [simp del]

definition msr_write_all_cpus :: "machine \<Rightarrow> u32 \<Rightarrow> u64 \<Rightarrow> int \<Rightarrow> int \<times> machine" where
  "msr_write_all_cpus m msr v max_cpus =
     (let n = (if cpu_count m > max_cpus then max_cpus else cpu_count m) in
      case write_loop m msr v 0 n of
        (False, m') \<Rightarrow> (ERROR_SYSTEM, m')
      | (True, m') \<Rightarrow> (n, m'))"

section \<open>Cache allocation (rdt_test.c)\<close>

text \<open>
  In the functions below a local \<^verbatim>\<open>uint64_t value;\<close> is read into by
  \<^verbatim>\<open>msr_read_cpu\<close>; its content before the call is never used and is passed as 0.
\<close>

definition rdt_read_l3_mask :: "machine \<Rightarrow> int \<Rightarrow> u64 \<Rightarrow> int \<times> u64 \<times> machine" where
  "rdt_read_l3_mask m clos_id old =
     (if clos_id \<ge> MAX_CLOS then (ERROR_INVALID_PARAM, old, m)
      else msr_read_cpu m 0 (to_u32 (MSR_IA32_L3_MASK_0 + clos_id)) old)"

definition rdt_write_l3_mask :: "machine \<Rightarrow> int \<Rightarrow> u64 \<Rightarrow> int \<times> machine" where
  "rdt_write_l3_mask m clos_id msk =
     (if clos_id \<ge> MAX_CLOS then (ERROR_INVALID_PARAM, m)
      else
        (case write_loop m (to_u32 (MSR_IA32_L3_MASK_0 + clos_id)) msk 0 (cpu_count m) of
           (False, m') \<Rightarrow> (ERROR_SYSTEM, m')
         | (True, m') \<Rightarrow> (SUCCESS, m')))"

definition rdt_set_clos :: "machine \<Rightarrow> int \<Rightarrow> int \<Rightarrow> int \<times> machine" where
  "rdt_set_clos m cpu clos_id =
     (if clos_id \<ge> MAX_CLOS then (ERROR_INVALID_PARAM, m)
      else
        (case msr_read_cpu m cpu (to_u32 MSR_IA32_PQR_ASSOC) 0 of
           (rc, v, m1) \<Rightarrow>
             if rc \<noteq> SUCCESS then (ERROR_SYSTEM, m1)
             else msr_write_cpu m1 cpu (to_u32 MSR_IA32_PQR_ASSOC)
                    ((v AND 0xFFFFFFFF00000000) OR word_of_int clos_id)))"

definition rdt_get_clos :: "machine \<Rightarrow> int \<Rightarrow> int \<Rightarrow> int \<times> int \<times> machine" where
  "rdt_get_clos m cpu old =
     (case msr_read_cpu m cpu (to_u32 MSR_IA32_PQR_ASSOC) 0 of
        (rc, v, m1) \<Rightarrow>
          if rc \<noteq> SUCCESS then (ERROR_SYSTEM, old, m1)
          else (SUCCESS, sint (ucast (v AND 0xFFFFFFFF) :: 32 word), m1))"

text \<open>
  The latency loop of \<^verbatim>\<open>rdt_test_dynamic_switching\<close>:
  \<^verbatim>\<open>for (int i = ...; i < n; i++) rdt_set_clos(0, (i % 2) ? 1 : 0);\<close> with the
  return codes dropped, as the source drops them.  The source runs it from 0 to 1000.
\<close>

function switch_loop :: "machine \<Rightarrow> int \<Rightarrow> int \<Rightarrow> machine" where
  "switch_loop m i n =
     (if i < n then
        switch_loop (snd (rdt_set_clos m 0 (if i mod 2 \<noteq> 0 then 1 else 0))) (i + 1) n
      else m)"
  by pat_completeness auto
termination
  by (relation "measure (\<lambda>(m, i, n). nat (n - i))") auto

declare switch_loop.simps [simp del]

definition rdt_test_dynamic_switching :: "machine \<Rightarrow> int \<times> machine" where
  "rdt_test_dynamic_switching m =
     (case rdt_get_clos m 0 0 of
        (rc0, original_clos, m1) \<Rightarrow>
          if rc0 \<noteq> SUCCESS then (ERROR_SYSTEM, m1)
          else
            (case rdt_set_clos m1 0 1 of
               (rc1, m2) \<Rightarrow>
                 if rc1 \<noteq> SUCCESS then (ERROR_SYSTEM, m2)
                 else
                   (case rdt_get_clos m2 0 0 of
                      (rc2, current_clos, m3) \<Rightarrow>
                        if rc2 \<noteq> SUCCESS then (ERROR_SYSTEM, m3)
                        else if current_clos \<noteq> 1 then (ERROR_SYSTEM, m3)
                        else
                          (let m4 = switch_loop m3 0 1000;
                               m5 = snd (rdt_set_clos m4 0 original_clos)
                           in (SUCCESS, m5)))))"

text \<open>The number of writes to a register address that took effect, read off the log.\<close>

fun is_write_to :: "u32 \<Rightarrow> access \<Rightarrow> bool" where
  "is_write_to a (Wr c a' v ok) = (a' = a \<and> ok)"
| "is_write_to a (Rd c a' ok) = False"

definition applied_writes :: "u32 \<Rightarrow> access list \<Rightarrow> nat" where
  "applied_writes a t = length (filter (is_write_to a) t)"

section \<open>Monitoring identifiers and counters (rdt_monitor.c)\<close>

definition rdt_monitor_set_rmid :: "machine \<Rightarrow> int \<Rightarrow> int \<Rightarrow> int \<times> machine" where
  "rdt_monitor_set_rmid m cpu rmid_arg =
     (if rmid_arg \<ge> MAX_RMID then (ERROR_INVALID_PARAM, m)
      else
        (case msr_read_cpu m cpu (to_u32 MSR_IA32_PQR_ASSOC) 0 of
           (rc, v, m1) \<Rightarrow>
             if rc \<noteq> SUCCESS then (ERROR_SYSTEM, m1)
             else msr_write_cpu m1 cpu (to_u32 MSR_IA32_PQR_ASSOC)
                    ((v AND 0x00000000FFFFFFFF) OR push_bit 32 (word_of_int rmid_arg))))"

definition rdt_monitor_get_rmid :: "machine \<Rightarrow> int \<Rightarrow> int \<Rightarrow> int \<times> int \<times> machine" where
  "rdt_monitor_get_rmid m cpu old =
     (case msr_read_cpu m cpu (to_u32 MSR_IA32_PQR_ASSOC) 0 of
        (rc, v, m1) \<Rightarrow>
          if rc \<noteq> SUCCESS then (ERROR_SYSTEM, old, m1)
          else (SUCCESS, sint (ucast (drop_bit 32 v) :: 32 word), m1))"

text \<open>
  The three counter readers differ in the event id (1, 2, 3) and in the scaling of the
  occupancy by 64.  Each takes the content of the output variable before the call.
\<close>

definition rdt_monitor_read_llc_occupancy :: "machine \<Rightarrow> int \<Rightarrow> u64 \<Rightarrow> int \<times> u64 \<times> machine" where
  "rdt_monitor_read_llc_occupancy m rmid_arg old =
     (let evtsel = word_of_int rmid_arg OR push_bit 32 1 in
      case msr_write_cpu m 0 (to_u32 MSR_IA32_QM_EVTSEL) evtsel of
        (rc1, m1) \<Rightarrow>
          if rc1 \<noteq> SUCCESS then (ERROR_SYSTEM, old, m1)
          else
            (case msr_read_cpu m1 0 (to_u32 MSR_IA32_QM_CTR) old of
               (rc2, v, m2) \<Rightarrow>
                 if rc2 \<noteq> SUCCESS then (ERROR_SYSTEM, v, m2)
                 else (SUCCESS, v * 64, m2)))"

definition rdt_monitor_read_mbm_total :: "machine \<Rightarrow> int \<Rightarrow> u64 \<Rightarrow> int \<times> u64 \<times> machine" where
  "rdt_monitor_read_mbm_total m rmid_arg old =
     (let evtsel = word_of_int rmid_arg OR push_bit 32 2 in
      case msr_write_cpu m 0 (to_u32 MSR_IA32_QM_EVTSEL) evtsel of
        (rc1, m1) \<Rightarrow>
          if rc1 \<noteq> SUCCESS then (ERROR_SYSTEM, old, m1)
          else
            (case msr_read_cpu m1 0 (to_u32 MSR_IA32_QM_CTR) old of
               (rc2, v, m2) \<Rightarrow>
                 if rc2 \<noteq> SUCCESS then (ERROR_SYSTEM, v, m2)
                 else (SUCCESS, v, m2)))"

definition rdt_monitor_read_mbm_local :: "machine \<Rightarrow> int \<Rightarrow> u64 \<Rightarrow> int \<times> u64 \<times> machine" where
  "rdt_monitor_read_mbm_local m rmid_arg old =
     (let evtsel = word_of_int rmid_arg OR push_bit 32 3 in
      case msr_write_cpu m 0 (to_u32 MSR_IA32_QM_EVTSEL) evtsel of
        (rc1, m1) \<Rightarrow>
          if rc1 \<noteq> SUCCESS then (ERROR_SYSTEM, old, m1)
          else
            (case msr_read_cpu m1 0 (to_u32 MSR_IA32_QM_CTR) old of
               (rc2, v, m2) \<Rightarrow>
                 if rc2 \<noteq> SUCCESS then (ERROR_SYSTEM, v, m2)
                 else (SUCCESS, v, m2)))"

text \<open>
  \<^verbatim>\<open>rdt_monitor_data_t\<close>, and what one \<^verbatim>\<open>printf\<close> of the monitoring loop shows: the
  elapsed microseconds (printed as seconds), the identifier, the occupancy in KB and
  the two rates in MB/s.
\<close>

record rdt_monitor_data_t =
  rmid :: int
  llc_occupancy :: u64
  mbm_total :: u64
  mbm_local :: u64
  timestamp :: u64

record monitor_row =
  row_elapsed :: u64
  row_rmid :: int
  row_llc_kb :: u64
  row_total_mbs :: u64
  row_local_mbs :: u64

definition zero_data :: rdt_monitor_data_t where
  "zero_data = \<lparr>rmid = 0, llc_occupancy = 0, mbm_total = 0, mbm_local = 0, timestamp = 0\<rparr>"

text \<open>
  What the loop observes of its environment in one round: the \<^verbatim>\<open>running\<close> flag and
  the clock at the loop test, the clock read for the sample, and the counter values
  the hardware presents during the round.
\<close>

record tick =
  t_running :: bool
  t_check :: u64
  t_stamp :: u64
  t_ctr :: "int \<Rightarrow> u64 \<Rightarrow> u64"

text \<open>The block under \<^verbatim>\<open>// Calculate bandwidth (if we have previous data)\<close>.\<close>

definition monitor_report :: "u64 \<Rightarrow> rdt_monitor_data_t \<Rightarrow> rdt_monitor_data_t \<Rightarrow> monitor_row option" where
  "monitor_report start_time prev cur =
     (if timestamp prev > 0 then
        (let time_diff = timestamp cur - timestamp prev in
         if time_diff > 0 then
           (let mbm_total_rate = (mbm_total cur - mbm_total prev) * 1000000 div time_diff;
                mbm_local_rate = (mbm_local cur - mbm_local prev) * 1000000 div time_diff
            in Some \<lparr>row_elapsed = timestamp cur - start_time,
                      row_rmid = rmid cur,
                      row_llc_kb = llc_occupancy cur div 1024,
                      row_total_mbs = mbm_total_rate div (1024 * 1024),
                      row_local_mbs = mbm_local_rate div (1024 * 1024)\<rparr>)
         else None)
      else None)"

text \<open>
  One round of the loop body of \<^verbatim>\<open>rdt_monitor_continuous\<close>, up to
  \<^verbatim>\<open>prev_data = curr_data\<close>.  \<open>None\<close> is a \<^verbatim>\<open>break\<close>; otherwise the line printed, if
  any, and the new \<^verbatim>\<open>curr_data\<close>.
\<close>

definition rdt_monitor_round ::
  "machine \<Rightarrow> u64 \<Rightarrow> u64 \<Rightarrow> rdt_monitor_data_t \<Rightarrow> rdt_monitor_data_t
     \<Rightarrow> (monitor_row option \<times> rdt_monitor_data_t) option \<times> machine" where
  "rdt_monitor_round m start_time now prev cur =
     (let c0 = cur\<lparr>timestamp := now, rmid := 0\<rparr> in
      case rdt_monitor_read_llc_occupancy m (rmid c0) (llc_occupancy c0) of
        (rc1, v1, m1) \<Rightarrow>
          if rc1 \<noteq> SUCCESS then (None, m1)
          else
            (let c1 = c0\<lparr>llc_occupancy := v1\<rparr> in
             case rdt_monitor_read_mbm_total m1 (rmid c1) (mbm_total c1) of
               (rc2, v2, m2) \<Rightarrow>
                 if rc2 \<noteq> SUCCESS then (None, m2)
                 else
                   (let c2 = c1\<lparr>mbm_total := v2\<rparr> in
                    case rdt_monitor_read_mbm_local m2 (rmid c2) (mbm_local c2) of
                      (rc3, v3, m3) \<Rightarrow>
                        if rc3 \<noteq> SUCCESS then (None, m3)
                        else
                          (let c3 = c2\<lparr>mbm_local := v3\<rparr> in
                           (Some (monitor_report start_time prev c3, c3), m3)))))"

text \<open>
  The \<^verbatim>\<open>while (running && get_timestamp_us() < end_time)\<close> loop over a script of
  rounds.  The result is the list of printed lines and the machine; a script that
  ends before the loop does gives the lines printed so far.
\<close>

fun rdt_monitor_loop ::
  "machine \<Rightarrow> u64 \<Rightarrow> u64 \<Rightarrow> rdt_monitor_data_t \<Rightarrow> rdt_monitor_data_t \<Rightarrow> tick list
     \<Rightarrow> monitor_row list \<times> machine" where
  "rdt_monitor_loop m start_time end_time prev cur [] = ([], m)"
| "rdt_monitor_loop m start_time end_time prev cur (t # ts) =
     (if \<not> (t_running t \<and> t_check t < end_time) then ([], m)
      else
        (case rdt_monitor_round (m\<lparr>qm_ctr := t_ctr t\<rparr>) start_time (t_stamp t) prev cur of
           (None, m') \<Rightarrow> ([], m')
         | (Some (line, cur'), m') \<Rightarrow>
             (case rdt_monitor_loop m' start_time end_time cur' cur' ts of
                (lines, m'') \<Rightarrow>
                  ((case line of None \<Rightarrow> lines | Some r \<Rightarrow> r # lines), m''))))"

definition rdt_monitor_continuous :: "machine \<Rightarrow> int \<Rightarrow> u64 \<Rightarrow> tick list \<Rightarrow> monitor_row list \<times> machine" where
  "rdt_monitor_continuous m duration_seconds start_time ticks =
     (let end_time = start_time + word_of_int duration_seconds * 1000000 in
      rdt_monitor_loop m start_time end_time zero_data zero_data ticks)"

section \<open>The benchmark (rdt_bench.c)\<close>

text \<open>The flag is the outcome of \<^verbatim>\<open>check_cpu_feature("mba") == SUCCESS\<close>.\<close>

definition setup_rdt_clos :: "machine \<Rightarrow> bool \<Rightarrow> int \<Rightarrow> u64 \<Rightarrow> u64 \<Rightarrow> int \<times> machine" where
  "setup_rdt_clos m mba clos_id l3_mask mb_throttle =
     (case msr_write_cpu m 0 (to_u32 (MSR_IA32_L3_MASK_0 + clos_id)) l3_mask of
        (rc1, m1) \<Rightarrow>
          if rc1 \<noteq> SUCCESS then (ERROR_SYSTEM, m1)
          else if mba \<and> mb_throttle > 0 then
            (case msr_write_cpu m1 0 (to_u32 (MSR_IA32_MBA_THRTL_MSR + clos_id)) mb_throttle of
               (rc2, m2) \<Rightarrow> (SUCCESS, m2))
          else (SUCCESS, m1))"

text \<open>The second argument is what \<^verbatim>\<open>sched_getcpu()\<close> returns.\<close>

definition assign_thread_to_clos :: "machine \<Rightarrow> int \<Rightarrow> int \<Rightarrow> int \<times> machine" where
  "assign_thread_to_clos m cpu clos_id =
     (if cpu < 0 then (ERROR_SYSTEM, m)
      else
        (case msr_read_cpu m cpu (to_u32 MSR_IA32_PQR_ASSOC) 0 of
           (rc, v, m1) \<Rightarrow>
             if rc \<noteq> SUCCESS then (ERROR_SYSTEM, m1)
             else msr_write_cpu m1 cpu (to_u32 MSR_IA32_PQR_ASSOC)
                    ((v AND 0x00000000FFFFFFFF) OR push_bit 32 (word_of_int clos_id))))"

text \<open>
  \<^verbatim>\<open>monitor_rdt_metrics\<close>: one line of its table, the state it keeps between rounds,
  one round of the loop body, and the loop.
\<close>

record metrics_row =
  mrow_elapsed :: u64
  mrow_llc_kb :: u64
  mrow_total_mbs :: u64
  mrow_local_mbs :: u64

record metrics_prev =
  prev_mbm_total :: u64
  prev_mbm_local :: u64
  prev_timestamp :: u64

definition metrics_round ::
  "machine \<Rightarrow> u64 \<Rightarrow> u64 \<Rightarrow> metrics_prev \<Rightarrow> metrics_row option \<times> metrics_prev \<times> machine" where
  "metrics_round m start_time curr_timestamp p =
     (let (llc, ma) =
            (case msr_write_cpu m 0 (to_u32 MSR_IA32_QM_EVTSEL) (0 OR push_bit 32 1) of
               (rc1, m1) \<Rightarrow>
                 if rc1 = SUCCESS then
                   (case msr_read_cpu m1 0 (to_u32 MSR_IA32_QM_CTR) 0 of
                      (rc2, v, m2) \<Rightarrow> if rc2 = SUCCESS then (v * 64, m2) else (v, m2))
                 else (0, m1));
          (tot, mb) =
            (case msr_write_cpu ma 0 (to_u32 MSR_IA32_QM_EVTSEL) (0 OR push_bit 32 2) of
               (rc1, m1) \<Rightarrow>
                 if rc1 = SUCCESS then
                   (case msr_read_cpu m1 0 (to_u32 MSR_IA32_QM_CTR) 0 of
                      (rc2, v, m2) \<Rightarrow> (v, m2))
                 else (0, m1));
          (loc, mc) =
            (case msr_write_cpu mb 0 (to_u32 MSR_IA32_QM_EVTSEL) (0 OR push_bit 32 3) of
               (rc1, m1) \<Rightarrow>
                 if rc1 = SUCCESS then
                   (case msr_read_cpu m1 0 (to_u32 MSR_IA32_QM_CTR) 0 of
                      (rc2, v, m2) \<Rightarrow> (v, m2))
                 else (0, m1));
          line =
            (if prev_timestamp p > 0 then
               (let time_diff = curr_timestamp - prev_timestamp p;
                    mbm_total_rate =
                      (if time_diff > 0 then (tot - prev_mbm_total p) * 1000000 div time_diff else 0);
                    mbm_local_rate =
                      (if time_diff > 0 then (loc - prev_mbm_local p) * 1000000 div time_diff else 0)
                in Some \<lparr>mrow_elapsed = curr_timestamp - start_time,
                          mrow_llc_kb = llc div 1024,
                          mrow_total_mbs = mbm_total_rate div (1024 * 1024),
                          mrow_local_mbs = mbm_local_rate div (1024 * 1024)\<rparr>)
             else None)
      in (line, \<lparr>prev_mbm_total = tot, prev_mbm_local = loc, prev_timestamp = curr_timestamp\<rparr>, mc))"

fun metrics_loop ::
  "machine \<Rightarrow> u64 \<Rightarrow> u64 \<Rightarrow> metrics_prev \<Rightarrow> tick list \<Rightarrow> metrics_row list \<times> machine" where
  "metrics_loop m start_time end_time p [] = ([], m)"
| "metrics_loop m start_time end_time p (t # ts) =
     (if \<not> (t_check t < end_time) then ([], m)
      else
        (case metrics_round (m\<lparr>qm_ctr := t_ctr t\<rparr>) start_time (t_stamp t) p of
           (line, p', m') \<Rightarrow>
             (case metrics_loop m' start_time end_time p' ts of
                (lines, m'') \<Rightarrow>
                  ((case line of None \<Rightarrow> lines | Some r \<Rightarrow> r # lines), m''))))"

definition monitor_rdt_metrics :: "machine \<Rightarrow> int \<Rightarrow> u64 \<Rightarrow> tick list \<Rightarrow> metrics_row list \<times> machine" where
  "monitor_rdt_metrics m duration start_time ticks =
     (let end_time = start_time + word_of_int duration * 1000000 in
      metrics_loop m start_time end_time
        \<lparr>prev_mbm_total = 0, prev_mbm_local = 0, prev_timestamp = start_time\<rparr> ticks)"

section \<open>A concrete machine\<close>

text \<open>
  Two processors with every access accepted; each association word holds monitoring
  identifier 5 in bits 63:32 and class 3 in bits 31:0.
\<close>

definition demo_machine :: machine where
  "demo_machine =
     \<lparr>cpu_count = 2,
      dev_ok = (\<lambda>c. 0 \<le> c \<and> c < 2),
      rd_ok = (\<lambda>c a. True),
      wr_ok = (\<lambda>c a v. True),
      regs = (\<lambda>c a. if a = to_u32 MSR_IA32_PQR_ASSOC then 0x0000000500000003 else 0),
      qm_ctr = (\<lambda>c s. 0),
      trace = []\<rparr>"

section \<open>Notions used in the statements and proofs\<close>

text \<open>
  The machine after a successful write of a selector to the event-select register of
  CPU 0, and after the read of the counter register that follows it.
\<close>

definition selected :: "machine \<Rightarrow> u64 \<Rightarrow> machine" where
  "selected m sel =
     m\<lparr>regs := (regs m)(0 := (regs m 0)(to_u32 MSR_IA32_QM_EVTSEL := sel)),
       trace := trace m @ [Wr 0 (to_u32 MSR_IA32_QM_EVTSEL) sel True]\<rparr>"

definition sampled :: "machine \<Rightarrow> u64 \<Rightarrow> machine" where
  "sampled m sel =
     m\<lparr>regs := (regs m)(0 := (regs m 0)(to_u32 MSR_IA32_QM_EVTSEL := sel)),
       trace := trace m @ [Wr 0 (to_u32 MSR_IA32_QM_EVTSEL) sel True,
                           Rd 0 (to_u32 MSR_IA32_QM_CTR) True]\<rparr>"

text \<open>
  The select-then-read discipline, as a check of a log.  A log is accepted when it is
  a sequence of units, each either a refused write of a selector to the event-select
  register of CPU 0, or an accepted one followed at once by a read of the counter
  register of CPU 0.  The selector of each unit must carry the identifier \<open>i\<close> in bits
  31:0 and the expected event id in bits 63:32; the event ids run 1, 2, 3, 1, ...
  (occupancy, total bandwidth, local bandwidth), \<open>e\<close> counting from 0.  The result is
  the position in that cycle after the log, \<open>None\<close> when the log is not accepted.
\<close>

fun sample_log :: "int \<Rightarrow> nat \<Rightarrow> access list \<Rightarrow> nat option" where
  "sample_log i e [] = Some e"
| "sample_log i e (Wr c a v True # Rd c' a' ok # t) =
     (if c = 0 \<and> a = to_u32 MSR_IA32_QM_EVTSEL
         \<and> take_bit 32 v = word_of_int i \<and> drop_bit 32 v = of_nat (Suc e)
         \<and> c' = 0 \<and> a' = to_u32 MSR_IA32_QM_CTR
      then sample_log i (Suc e mod 3) t else None)"
| "sample_log i e (Wr c a v False # t) =
     (if c = 0 \<and> a = to_u32 MSR_IA32_QM_EVTSEL
         \<and> take_bit 32 v = word_of_int i \<and> drop_bit 32 v = of_nat (Suc e)
      then sample_log i (Suc e mod 3) t else None)"
| "sample_log i e t = None"

text \<open>
  The machine after one of the three sampling blocks of \<^verbatim>\<open>monitor_rdt_metrics\<close>: the
  selector is written and, if that succeeded, the counter is read.
\<close>

definition probe :: "machine \<Rightarrow> u64 \<Rightarrow> machine" where
  "probe m sel =
     (case msr_write_cpu m 0 (to_u32 MSR_IA32_QM_EVTSEL) sel of
        (rc1, m1) \<Rightarrow>
          if rc1 = SUCCESS then snd (snd (msr_read_cpu m1 0 (to_u32 MSR_IA32_QM_CTR) 0))
          else m1)"

section \<open>Properties of the field helpers\<close>

lemma set_field_value:
  assumes "0 \<le> s" "1 \<le> n" "s + n \<le> 63"
  shows "msr_set_field v s n f =
           Some ((v AND NOT (push_bit (nat s) (mask (nat n)))) OR push_bit (nat s) (f AND mask (nat n)))"
  using assms by (simp add: msr_set_field_def shl64_def Let_def flip: mask_eq_exp_minus_1)

lemma get_field_value:
  assumes "0 \<le> s" "1 \<le> n" "s + n \<le> 63"
  shows "msr_get_field w s n = Some (drop_bit (nat s) w AND mask (nat n))"
  using assms by (simp add: msr_get_field_def shl64_def shr64_def Let_def flip: mask_eq_exp_minus_1)

lemma field_roundtrip_word:
  "drop_bit s ((v AND NOT (push_bit s (mask n))) OR push_bit s (f AND mask n)) AND mask n
     = (f AND mask n :: u64)"
  if "s + n \<le> 63"
proof (rule bit_eqI)
  fix i
  assume "possible_bit TYPE(u64) i"
  show "bit (drop_bit s ((v AND NOT (push_bit s (mask n))) OR push_bit s (f AND mask n)) AND mask n) i
      = bit (f AND mask n) i"
    using that by (auto simp add: bit_simps)
qed

lemma field_outside_word:
  "bit ((v AND NOT (push_bit s (mask n))) OR push_bit s (f AND mask n) :: u64) i = bit v i"
  if "\<not> (s \<le> i \<and> i < s + n)"
  using that by (auto simp add: bit_simps dest: bit_imp_le_length)

text \<open>
  C9.  For a start bit \<open>s \<ge> 0\<close> and a width \<open>n \<ge> 1\<close> with \<open>s + n \<le> 63\<close>, both helpers
  are defined, reading the field back after setting it gives the field value modulo
  \<open>2 ^ n\<close>, and setting the field leaves every bit outside positions \<open>s .. s+n-1\<close> as
  it was.
\<close>

theorem msr_field_roundtrip:
  assumes "0 \<le> s" "1 \<le> n" "s + n \<le> 63"
  shows "\<exists>w r. msr_set_field v s n f = Some w
             \<and> msr_get_field w s n = Some r
             \<and> unat r = unat f mod 2 ^ nat n
             \<and> (\<forall>i. \<not> (nat s \<le> i \<and> i < nat s + nat n) \<longrightarrow> bit w i = bit v i)"
proof -
  let ?w = "(v AND NOT (push_bit (nat s) (mask (nat n)))) OR push_bit (nat s) (f AND mask (nat n))"
  have le: "nat s + nat n \<le> 63" using assms by linarith
  have 1: "msr_set_field v s n f = Some ?w" by (rule set_field_value [OF assms])
  have 2: "msr_get_field ?w s n = Some (f AND mask (nat n))"
    unfolding get_field_value [OF assms] field_roundtrip_word [OF le] ..
  have 3: "unat (f AND mask (nat n)) = unat f mod 2 ^ nat n"
    unfolding take_bit_eq_mask [symmetric] by (metis take_bit_eq_mod unsigned_take_bit_eq)
  have 4: "\<forall>i. \<not> (nat s \<le> i \<and> i < nat s + nat n) \<longrightarrow> bit ?w i = bit v i"
    using field_outside_word by blast
  from 1 2 3 4 show ?thesis by blast
qed

theorem msr_field_roundtrip_witness:
  "\<exists>w r. msr_set_field 0xFFFF 4 8 0x1AB = Some w
       \<and> msr_get_field w 4 8 = Some r
       \<and> unat r = unat (0x1AB :: u64) mod 2 ^ nat 8
       \<and> (\<forall>i. \<not> (nat 4 \<le> i \<and> i < nat 4 + nat 8) \<longrightarrow> bit w i = bit (0xFFFF :: u64) i)"
  using msr_field_roundtrip [of 4 8 "0xFFFF" "0x1AB"] by simp

section \<open>Register access and the association word\<close>

lemma hi_half_mask: "(0xFFFFFFFF00000000 :: u64) = NOT (mask 32)"
  by (simp add: mask_eq_exp_minus_1)

lemma lo_half_mask: "(0x00000000FFFFFFFF :: u64) = mask 32"
  by (simp add: mask_eq_exp_minus_1)

lemma assoc_not_ctr: "to_u32 MSR_IA32_PQR_ASSOC \<noteq> to_u32 MSR_IA32_QM_CTR"
  by (simp add: to_u32_def MSR_IA32_PQR_ASSOC_def MSR_IA32_QM_CTR_def)

lemma msr_read_cpu_cases:
  "msr_read_cpu m cpu msr old = (rc, v, m') \<Longrightarrow>
     (rc = SUCCESS \<and> dev_ok m cpu \<and> rd_ok m cpu msr \<and> v = hw_value m cpu msr
        \<and> m' = m\<lparr>trace := trace m @ [Rd cpu msr True]\<rparr>)
   \<or> (rc = ERROR_SYSTEM \<and> \<not> (dev_ok m cpu \<and> rd_ok m cpu msr) \<and> v = old
        \<and> m' = m\<lparr>trace := trace m @ [Rd cpu msr False]\<rparr>)"
  by (auto simp add: msr_read_cpu_def split: if_splits)

lemma msr_write_cpu_cases:
  "msr_write_cpu m cpu msr v = (rc, m') \<Longrightarrow>
     (rc = SUCCESS \<and> dev_ok m cpu \<and> wr_ok m cpu msr v
        \<and> m' = m\<lparr>regs := (regs m)(cpu := (regs m cpu)(msr := v)),
                   trace := trace m @ [Wr cpu msr v True]\<rparr>)
   \<or> (rc = ERROR_SYSTEM \<and> \<not> (dev_ok m cpu \<and> wr_ok m cpu msr v)
        \<and> m' = m\<lparr>trace := trace m @ [Wr cpu msr v False]\<rparr>)"
  by (auto simp add: msr_write_cpu_def split: if_splits)

lemma codes_distinct [simp]:
  "ERROR_SYSTEM \<noteq> SUCCESS" "ERROR_INVALID_PARAM \<noteq> SUCCESS"
  "SUCCESS \<noteq> ERROR_SYSTEM" "SUCCESS \<noteq> ERROR_INVALID_PARAM"
  "ERROR_INVALID_PARAM \<noteq> ERROR_SYSTEM" "ERROR_SYSTEM \<noteq> ERROR_INVALID_PARAM"
  by (simp_all add: SUCCESS_def ERROR_SYSTEM_def ERROR_INVALID_PARAM_def)

lemma small_id_low:
  "0 \<le> c \<Longrightarrow> c < 2 ^ 32 \<Longrightarrow> take_bit 32 (word_of_int c :: u64) = word_of_int c"
  by (simp add: take_bit_int_eq_self take_bit_of_int)

lemma small_id_high_zero:
  assumes "0 \<le> c" "c < 2 ^ 32"
  shows "drop_bit 32 (word_of_int c :: u64) = 0"
proof -
  have "drop_bit 32 (take_bit 32 (word_of_int c :: u64)) = 0"
    by (simp add: drop_bit_take_bit)
  then show ?thesis using small_id_low [OF assms] by simp
qed

lemma high_zero_bits:
  assumes "drop_bit 32 (w :: u64) = 0"
  shows "\<not> bit w (32 + i)"
proof -
  have "bit (drop_bit 32 w) i = bit w (32 + i)" by (simp add: bit_drop_bit_eq)
  then show ?thesis using assms by simp
qed

lemma set_low_half_keeps_high:
  assumes "drop_bit 32 (w :: u64) = 0"
  shows "drop_bit 32 ((v AND NOT (mask 32)) OR w) = drop_bit 32 v"
proof (rule bit_eqI)
  fix i
  assume "possible_bit TYPE(u64) i"
  show "bit (drop_bit 32 ((v AND NOT (mask 32)) OR w)) i = bit (drop_bit 32 v) i"
    using high_zero_bits [OF assms, of i] by (auto simp add: bit_simps dest: bit_imp_le_length)
qed

lemma set_low_half_low:
  "take_bit 32 ((v AND NOT (mask 32)) OR w) = take_bit 32 (w :: u64)"
  by (rule bit_eqI) (auto simp add: bit_simps)

lemma set_high_half_keeps_low:
  "take_bit 32 ((v AND mask 32) OR push_bit 32 w) = take_bit 32 (v :: u64)"
  by (rule bit_eqI) (auto simp add: bit_simps)

lemma set_high_half_high:
  "drop_bit 32 ((v AND mask 32) OR push_bit 32 w) = take_bit 32 (w :: u64)"
  by (rule bit_eqI) (auto simp add: bit_simps)

lemma rdt_set_clos_success:
  assumes "rdt_set_clos m cpu c = (SUCCESS, m')"
  shows "regs m' = (regs m)(cpu := (regs m cpu)(to_u32 MSR_IA32_PQR_ASSOC :=
            (regs m cpu (to_u32 MSR_IA32_PQR_ASSOC) AND 0xFFFFFFFF00000000) OR word_of_int c))"
  using assms
  by (auto simp add: rdt_set_clos_def hw_value_def assoc_not_ctr
      split: if_splits prod.splits dest!: msr_read_cpu_cases msr_write_cpu_cases)

lemma rdt_monitor_set_rmid_success:
  assumes "rdt_monitor_set_rmid m cpu r = (SUCCESS, m')"
  shows "regs m' = (regs m)(cpu := (regs m cpu)(to_u32 MSR_IA32_PQR_ASSOC :=
            (regs m cpu (to_u32 MSR_IA32_PQR_ASSOC) AND 0x00000000FFFFFFFF) OR push_bit 32 (word_of_int r)))"
  using assms
  by (auto simp add: rdt_monitor_set_rmid_def hw_value_def assoc_not_ctr
      split: if_splits prod.splits dest!: msr_read_cpu_cases msr_write_cpu_cases)

lemma assign_thread_to_clos_success:
  assumes "assign_thread_to_clos m cpu c = (SUCCESS, m')"
  shows "regs m' = (regs m)(cpu := (regs m cpu)(to_u32 MSR_IA32_PQR_ASSOC :=
            (regs m cpu (to_u32 MSR_IA32_PQR_ASSOC) AND 0x00000000FFFFFFFF) OR push_bit 32 (word_of_int c)))"
  using assms
  by (auto simp add: assign_thread_to_clos_def hw_value_def assoc_not_ctr
      split: if_splits prod.splits dest!: msr_read_cpu_cases msr_write_cpu_cases)

text \<open>
  C1 (as amended).  For an in-range identifier, each setter of the association word
  rewrites one 32-bit half and leaves the other half as it was: \<^verbatim>\<open>rdt_set_clos\<close>
  puts the class id in bits 31:0 and keeps bits 63:32; \<^verbatim>\<open>rdt_monitor_set_rmid\<close> puts
  the monitoring id in bits 63:32 and keeps bits 31:0; \<^verbatim>\<open>assign_thread_to_clos\<close> of
  the benchmark puts its class id in bits 63:32 and keeps bits 31:0.
\<close>

theorem assoc_setters_preserve_other_half:
  "(0 \<le> c \<and> c < MAX_CLOS \<and> rdt_set_clos m cpu c = (SUCCESS, m1) \<longrightarrow>
      drop_bit 32 (regs m1 cpu (to_u32 MSR_IA32_PQR_ASSOC))
        = drop_bit 32 (regs m cpu (to_u32 MSR_IA32_PQR_ASSOC))
      \<and> take_bit 32 (regs m1 cpu (to_u32 MSR_IA32_PQR_ASSOC)) = word_of_int c)
 \<and> (0 \<le> r \<and> r < MAX_RMID \<and> rdt_monitor_set_rmid m cpu r = (SUCCESS, m2) \<longrightarrow>
      take_bit 32 (regs m2 cpu (to_u32 MSR_IA32_PQR_ASSOC))
        = take_bit 32 (regs m cpu (to_u32 MSR_IA32_PQR_ASSOC))
      \<and> drop_bit 32 (regs m2 cpu (to_u32 MSR_IA32_PQR_ASSOC)) = word_of_int r)
 \<and> (0 \<le> c \<and> c < MAX_CLOS \<and> assign_thread_to_clos m cpu c = (SUCCESS, m3) \<longrightarrow>
      take_bit 32 (regs m3 cpu (to_u32 MSR_IA32_PQR_ASSOC))
        = take_bit 32 (regs m cpu (to_u32 MSR_IA32_PQR_ASSOC))
      \<and> drop_bit 32 (regs m3 cpu (to_u32 MSR_IA32_PQR_ASSOC)) = word_of_int c)"
proof (intro conjI impI; elim conjE)
  assume c: "0 \<le> c" "c < MAX_CLOS" and ok: "rdt_set_clos m cpu c = (SUCCESS, m1)"
  from c have c32: "c < 2 ^ 32" by (simp add: MAX_CLOS_def)
  show "drop_bit 32 (regs m1 cpu (to_u32 MSR_IA32_PQR_ASSOC))
        = drop_bit 32 (regs m cpu (to_u32 MSR_IA32_PQR_ASSOC))"
    unfolding rdt_set_clos_success [OF ok] hi_half_mask
    by (simp only: fun_upd_same set_low_half_keeps_high [OF small_id_high_zero [OF c(1) c32]])
  show "take_bit 32 (regs m1 cpu (to_u32 MSR_IA32_PQR_ASSOC)) = word_of_int c"
    unfolding rdt_set_clos_success [OF ok] hi_half_mask
    by (simp only: fun_upd_same set_low_half_low small_id_low [OF c(1) c32])
next
  assume r: "0 \<le> r" "r < MAX_RMID" and ok: "rdt_monitor_set_rmid m cpu r = (SUCCESS, m2)"
  from r have r32: "r < 2 ^ 32" by (simp add: MAX_RMID_def)
  show "take_bit 32 (regs m2 cpu (to_u32 MSR_IA32_PQR_ASSOC))
        = take_bit 32 (regs m cpu (to_u32 MSR_IA32_PQR_ASSOC))"
    unfolding rdt_monitor_set_rmid_success [OF ok] lo_half_mask
    by (simp only: fun_upd_same set_high_half_keeps_low)
  show "drop_bit 32 (regs m2 cpu (to_u32 MSR_IA32_PQR_ASSOC)) = word_of_int r"
    unfolding rdt_monitor_set_rmid_success [OF ok] lo_half_mask
    by (simp only: fun_upd_same set_high_half_high small_id_low [OF r(1) r32])
next
  assume c: "0 \<le> c" "c < MAX_CLOS" and ok: "assign_thread_to_clos m cpu c = (SUCCESS, m3)"
  from c have c32: "c < 2 ^ 32" by (simp add: MAX_CLOS_def)
  show "take_bit 32 (regs m3 cpu (to_u32 MSR_IA32_PQR_ASSOC))
        = take_bit 32 (regs m cpu (to_u32 MSR_IA32_PQR_ASSOC))"
    unfolding assign_thread_to_clos_success [OF ok] lo_half_mask
    by (simp only: fun_upd_same set_high_half_keeps_low)
  show "drop_bit 32 (regs m3 cpu (to_u32 MSR_IA32_PQR_ASSOC)) = word_of_int c"
    unfolding assign_thread_to_clos_success [OF ok] lo_half_mask
    by (simp only: fun_upd_same set_high_half_high small_id_low [OF c(1) c32])
qed

lemma demo_set_clos:
  "rdt_set_clos demo_machine 0 1 = (SUCCESS, snd (rdt_set_clos demo_machine 0 1))"
  by (simp add: rdt_set_clos_def msr_read_cpu_def msr_write_cpu_def demo_machine_def MAX_CLOS_def)

lemma demo_set_rmid:
  "rdt_monitor_set_rmid demo_machine 0 7 = (SUCCESS, snd (rdt_monitor_set_rmid demo_machine 0 7))"
  by (simp add: rdt_monitor_set_rmid_def msr_read_cpu_def msr_write_cpu_def demo_machine_def MAX_RMID_def)

lemma demo_assign:
  "assign_thread_to_clos demo_machine 0 1 = (SUCCESS, snd (assign_thread_to_clos demo_machine 0 1))"
  by (simp add: assign_thread_to_clos_def msr_read_cpu_def msr_write_cpu_def demo_machine_def)

lemma demo_assoc: "regs demo_machine 0 (to_u32 MSR_IA32_PQR_ASSOC) = 0x0000000500000003"
  by (simp add: demo_machine_def)

theorem assoc_setters_preserve_other_half_witness:
  "drop_bit 32 (regs (snd (rdt_set_clos demo_machine 0 1)) 0 (to_u32 MSR_IA32_PQR_ASSOC)) = (5 :: u64)
   \<and> take_bit 32 (regs (snd (rdt_set_clos demo_machine 0 1)) 0 (to_u32 MSR_IA32_PQR_ASSOC)) = (1 :: u64)
   \<and> take_bit 32 (regs (snd (rdt_monitor_set_rmid demo_machine 0 7)) 0 (to_u32 MSR_IA32_PQR_ASSOC)) = (3 :: u64)
   \<and> drop_bit 32 (regs (snd (rdt_monitor_set_rmid demo_machine 0 7)) 0 (to_u32 MSR_IA32_PQR_ASSOC)) = (7 :: u64)
   \<and> take_bit 32 (regs (snd (assign_thread_to_clos demo_machine 0 1)) 0 (to_u32 MSR_IA32_PQR_ASSOC)) = (3 :: u64)"
  using assoc_setters_preserve_other_half [of 1 demo_machine 0 "snd (rdt_set_clos demo_machine 0 1)"
           7 "snd (rdt_monitor_set_rmid demo_machine 0 7)" "snd (assign_thread_to_clos demo_machine 0 1)"]
        demo_set_clos demo_set_rmid demo_assign
  by (simp add: demo_assoc MAX_CLOS_def MAX_RMID_def)

text \<open>
  C1 as stated fails for \<^verbatim>\<open>assign_thread_to_clos\<close>: on a word holding monitoring
  identifier 5 it succeeds and the monitoring half, as \<^verbatim>\<open>rdt_monitor_get_rmid\<close> reads
  it, is 1 afterwards.
\<close>

theorem assign_thread_to_clos_overwrites_high_half:
  "fst (assign_thread_to_clos demo_machine 0 1) = SUCCESS
   \<and> drop_bit 32 (regs demo_machine 0 (to_u32 MSR_IA32_PQR_ASSOC)) = (5 :: u64)
   \<and> drop_bit 32 (regs (snd (assign_thread_to_clos demo_machine 0 1)) 0 (to_u32 MSR_IA32_PQR_ASSOC)) = (1 :: u64)
   \<and> fst (snd (rdt_monitor_get_rmid demo_machine 0 0)) = 5
   \<and> fst (snd (rdt_monitor_get_rmid (snd (assign_thread_to_clos demo_machine 0 1)) 0 0)) = 1"
  by (simp add: assign_thread_to_clos_def rdt_monitor_get_rmid_def msr_read_cpu_def msr_write_cpu_def
      demo_machine_def hw_value_def to_u32_def MSR_IA32_PQR_ASSOC_def MSR_IA32_QM_CTR_def)

section \<open>Batch writes\<close>

lemma write_loop_result:
  "i \<le> k \<Longrightarrow> k \<le> n \<Longrightarrow>
   \<forall>j. i \<le> j \<and> j < k \<longrightarrow> dev_ok m j \<and> wr_ok m j msr v \<Longrightarrow>
   k < n \<longrightarrow> \<not> (dev_ok m k \<and> wr_ok m k msr v) \<Longrightarrow>
   write_loop m msr v i n =
     (\<not> k < n,
      m\<lparr>regs := (\<lambda>c. if i \<le> c \<and> c < k then (regs m c)(msr := v) else regs m c),
         trace := trace m @ map (\<lambda>j. Wr j msr v True) [i..k - 1]
                    @ (if k < n then [Wr k msr v False] else [])\<rparr>)"
proof (induction m msr v i n rule: write_loop.induct)
  case (1 m msr v i n)
  show ?case
  proof (cases "i < k")
    case False
    with "1.prems" have ik: "i = k" by simp
    have fe: "(\<lambda>c. if k \<le> c \<and> c < k then (regs m c)(msr := v) else regs m c) = regs m"
      by (auto simp add: fun_eq_iff)
    show ?thesis
    proof (cases "k < n")
      case True
      with "1.prems" have "\<not> (dev_ok m k \<and> wr_ok m k msr v)" by simp
      then have "msr_write_cpu m k msr v = (ERROR_SYSTEM, m\<lparr>trace := trace m @ [Wr k msr v False]\<rparr>)"
        by (auto simp add: msr_write_cpu_def)
      with True ik show ?thesis
        by (simp add: write_loop.simps [of m msr v k n] fe ERROR_SYSTEM_def SUCCESS_def)
    next
      case False
      with ik show ?thesis by (simp add: write_loop.simps [of m msr v k n] fe)
    qed
  next
    case True
    then have lt: "i < n" using "1.prems" by simp
    let ?m1 = "m\<lparr>regs := (regs m)(i := (regs m i)(msr := v)), trace := trace m @ [Wr i msr v True]\<rparr>"
    have ok: "dev_ok m i \<and> wr_ok m i msr v" using True "1.prems" by simp
    then have w: "msr_write_cpu m i msr v = (SUCCESS, ?m1)" by (simp add: msr_write_cpu_def)
    have rest: "\<forall>j. i + 1 \<le> j \<and> j < k \<longrightarrow> dev_ok ?m1 j \<and> wr_ok ?m1 j msr v"
      using "1.prems" by simp
    have last: "k < n \<longrightarrow> \<not> (dev_ok ?m1 k \<and> wr_ok ?m1 k msr v)"
      using "1.prems" by simp
    have ih: "write_loop ?m1 msr v (i + 1) n =
       (\<not> k < n,
        ?m1\<lparr>regs := (\<lambda>c. if i + 1 \<le> c \<and> c < k then (regs ?m1 c)(msr := v) else regs ?m1 c),
            trace := trace ?m1 @ map (\<lambda>j. Wr j msr v True) [i + 1..k - 1]
                       @ (if k < n then [Wr k msr v False] else [])\<rparr>)"
      using True "1.prems"(2) by (intro "1.IH" [OF lt w [symmetric] _ _ _ rest last]) simp_all
    have up: "[i..k - 1] = i # [i + 1..k - 1]" using True by (simp add: upto_rec1)
    have "write_loop m msr v i n = write_loop ?m1 msr v (i + 1) n"
      using lt w by (simp add: write_loop.simps [of m msr v i n])
    also note ih
    finally have wl: "write_loop m msr v i n =
       (\<not> k < n,
        ?m1\<lparr>regs := (\<lambda>c. if i + 1 \<le> c \<and> c < k then (regs ?m1 c)(msr := v) else regs ?m1 c),
            trace := trace ?m1 @ map (\<lambda>j. Wr j msr v True) [i + 1..k - 1]
                       @ (if k < n then [Wr k msr v False] else [])\<rparr>)" .
    have fe: "(\<lambda>c. if i + 1 \<le> c \<and> c < k then (regs ?m1 c)(msr := v) else regs ?m1 c)
            = (\<lambda>c. if i \<le> c \<and> c < k then (regs m c)(msr := v) else regs m c)"
      using True by (auto simp add: fun_eq_iff)
    show ?thesis unfolding wl by (simp add: up fe)
  qed
qed

lemma write_loop_frame_below:
  "write_loop m msr v i n = (b, m') \<Longrightarrow> c < i \<Longrightarrow> regs m' c = regs m c"
proof (induction m msr v i n rule: write_loop.induct)
  case (1 m msr v i n)
  show ?case
  proof (cases "i < n")
    case False
    with "1.prems" show ?thesis by (simp add: write_loop.simps [of m msr v i n])
  next
    case True
    obtain rc m1 where w: "msr_write_cpu m i msr v = (rc, m1)" by (cases "msr_write_cpu m i msr v")
    have r1: "regs m1 c = regs m c"
      using w "1.prems"(2) by (auto simp add: msr_write_cpu_def split: if_splits)
    show ?thesis
    proof (cases "rc = SUCCESS")
      case False
      with True w "1.prems"(1) have "m' = m1" by (simp add: write_loop.simps [of m msr v i n])
      with r1 show ?thesis by simp
    next
      case rc: True
      with True w "1.prems"(1) have "write_loop m1 msr v (i + 1) n = (b, m')"
        by (simp add: write_loop.simps [of m msr v i n])
      then have "regs m' c = regs m1 c"
        using rc "1.prems"(2) by (intro "1.IH" [OF True w [symmetric]]) simp_all
      with r1 show ?thesis by simp
    qed
  qed
qed

lemma write_loop_done_first:
  assumes "write_loop m msr v i n = (True, m')" "i < n"
  shows "regs m' i msr = v"
proof -
  obtain rc m1 where w: "msr_write_cpu m i msr v = (rc, m1)" by (cases "msr_write_cpu m i msr v")
  have rc: "rc = SUCCESS"
    using assms w by (auto simp add: write_loop.simps [of m msr v i n] split: if_splits)
  then have r1: "regs m1 i msr = v"
    using w by (auto simp add: msr_write_cpu_def ERROR_SYSTEM_def SUCCESS_def split: if_splits)
  have "write_loop m1 msr v (i + 1) n = (True, m')"
    using assms w rc by (simp add: write_loop.simps [of m msr v i n])
  then have "regs m' i = regs m1 i" by (rule write_loop_frame_below) simp
  with r1 show ?thesis by simp
qed

text \<open>
  C3 (as amended).  Let \<open>k\<close> be the first CPU whose write is refused, or \<open>k = n\<close>
  when none of the \<open>n\<close> writes is.  The batch write attempts CPUs \<open>0 .. k\<close> in order and
  nothing after \<open>k\<close>; CPUs below \<open>k\<close> hold the new value and every other register is
  as before.  On a failure the result is \<^verbatim>\<open>ERROR_SYSTEM\<close> alone, without the count of
  writes done; when all succeed, \<^verbatim>\<open>msr_write_all_cpus\<close> returns the CPU count and
  \<^verbatim>\<open>rdt_write_l3_mask\<close> returns \<^verbatim>\<open>SUCCESS\<close>.
\<close>

theorem batch_write_stops_at_first_failure:
  assumes "0 \<le> k" "k \<le> n"
      and "\<forall>j. 0 \<le> j \<and> j < k \<longrightarrow> dev_ok m j \<and> wr_ok m j msr v"
      and "k < n \<longrightarrow> \<not> (dev_ok m k \<and> wr_ok m k msr v)"
  shows "(n = (if cpu_count m > max_cpus then max_cpus else cpu_count m) \<longrightarrow>
            msr_write_all_cpus m msr v max_cpus =
              ((if k < n then ERROR_SYSTEM else n),
               m\<lparr>regs := (\<lambda>c. if 0 \<le> c \<and> c < k then (regs m c)(msr := v) else regs m c),
                  trace := trace m @ map (\<lambda>j. Wr j msr v True) [0..k - 1]
                             @ (if k < n then [Wr k msr v False] else [])\<rparr>))
       \<and> (n = cpu_count m \<and> clos < MAX_CLOS \<and> msr = to_u32 (MSR_IA32_L3_MASK_0 + clos) \<longrightarrow>
            rdt_write_l3_mask m clos v =
              ((if k < n then ERROR_SYSTEM else SUCCESS),
               m\<lparr>regs := (\<lambda>c. if 0 \<le> c \<and> c < k then (regs m c)(msr := v) else regs m c),
                  trace := trace m @ map (\<lambda>j. Wr j msr v True) [0..k - 1]
                             @ (if k < n then [Wr k msr v False] else [])\<rparr>))"
proof -
  note wl = write_loop_result [OF assms]
  show ?thesis
  proof (intro conjI impI)
    assume n: "n = (if cpu_count m > max_cpus then max_cpus else cpu_count m)"
    show "msr_write_all_cpus m msr v max_cpus =
              ((if k < n then ERROR_SYSTEM else n),
               m\<lparr>regs := (\<lambda>c. if 0 \<le> c \<and> c < k then (regs m c)(msr := v) else regs m c),
                  trace := trace m @ map (\<lambda>j. Wr j msr v True) [0..k - 1]
                             @ (if k < n then [Wr k msr v False] else [])\<rparr>)"
      unfolding msr_write_all_cpus_def Let_def n [symmetric] wl by simp
  next
    assume a: "n = cpu_count m \<and> clos < MAX_CLOS \<and> msr = to_u32 (MSR_IA32_L3_MASK_0 + clos)"
    then have c: "\<not> clos \<ge> MAX_CLOS" by simp
    from a have n: "cpu_count m = n" and ms: "to_u32 (MSR_IA32_L3_MASK_0 + clos) = msr" by simp_all
    show "rdt_write_l3_mask m clos v =
              ((if k < n then ERROR_SYSTEM else SUCCESS),
               m\<lparr>regs := (\<lambda>c. if 0 \<le> c \<and> c < k then (regs m c)(msr := v) else regs m c),
                  trace := trace m @ map (\<lambda>j. Wr j msr v True) [0..k - 1]
                             @ (if k < n then [Wr k msr v False] else [])\<rparr>)"
      unfolding rdt_write_l3_mask_def n ms wl using c by simp
  qed
qed

theorem batch_write_stops_at_first_failure_witness:
  "fst (msr_write_all_cpus (demo_machine\<lparr>cpu_count := 3\<rparr>) 0xC90 0xFF 8) = ERROR_SYSTEM
   \<and> regs (snd (msr_write_all_cpus (demo_machine\<lparr>cpu_count := 3\<rparr>) 0xC90 0xFF 8)) 1 0xC90 = 0xFF
   \<and> regs (snd (msr_write_all_cpus (demo_machine\<lparr>cpu_count := 3\<rparr>) 0xC90 0xFF 8)) 2 0xC90 = 0
   \<and> trace (snd (msr_write_all_cpus (demo_machine\<lparr>cpu_count := 3\<rparr>) 0xC90 0xFF 8))
       = [Wr 0 0xC90 0xFF True, Wr 1 0xC90 0xFF True, Wr 2 0xC90 0xFF False]
   \<and> fst (rdt_write_l3_mask (demo_machine\<lparr>cpu_count := 3\<rparr>) 0 0xFF) = ERROR_SYSTEM
   \<and> trace (snd (rdt_write_l3_mask (demo_machine\<lparr>cpu_count := 3\<rparr>) 0 0xFF))
       = [Wr 0 0xC90 0xFF True, Wr 1 0xC90 0xFF True, Wr 2 0xC90 0xFF False]"
  using batch_write_stops_at_first_failure [of 2 3 "demo_machine\<lparr>cpu_count := 3\<rparr>" "0xC90" "0xFF" 8 0]
  by (simp add: demo_machine_def MAX_CLOS_def to_u32_def MSR_IA32_L3_MASK_0_def MSR_IA32_PQR_ASSOC_def
      upto.simps)

text \<open>
  C3 as stated fails: the result of a stopped batch write does not tell how many
  writes were done.  With two writes done before the failure and with none, the
  result is the same \<^verbatim>\<open>ERROR_SYSTEM\<close>.
\<close>

theorem batch_write_result_has_no_count:
  "fst (msr_write_all_cpus (demo_machine\<lparr>cpu_count := 3\<rparr>) 0xC90 0xFF 8) = ERROR_SYSTEM
   \<and> applied_writes 0xC90 (trace (snd (msr_write_all_cpus (demo_machine\<lparr>cpu_count := 3\<rparr>) 0xC90 0xFF 8))) = 2
   \<and> fst (msr_write_all_cpus (demo_machine\<lparr>dev_ok := (\<lambda>c. False)\<rparr>) 0xC90 0xFF 8) = ERROR_SYSTEM
   \<and> applied_writes 0xC90 (trace (snd (msr_write_all_cpus (demo_machine\<lparr>dev_ok := (\<lambda>c. False)\<rparr>) 0xC90 0xFF 8))) = 0
   \<and> fst (rdt_write_l3_mask (demo_machine\<lparr>cpu_count := 3\<rparr>) 0 0xFF) = ERROR_SYSTEM
   \<and> fst (rdt_write_l3_mask demo_machine 0 0xFF) = SUCCESS"
  by (simp add: msr_write_all_cpus_def rdt_write_l3_mask_def write_loop.simps msr_write_cpu_def
      demo_machine_def applied_writes_def MAX_CLOS_def to_u32_def MSR_IA32_L3_MASK_0_def
      ERROR_SYSTEM_def SUCCESS_def)

section \<open>Cache bitmasks\<close>

lemma l3_addr_not_ctr:
  assumes "0 \<le> clos" "clos < MAX_CLOS"
  shows "to_u32 (MSR_IA32_L3_MASK_0 + clos) \<noteq> to_u32 MSR_IA32_QM_CTR"
proof
  assume "to_u32 (MSR_IA32_L3_MASK_0 + clos) = to_u32 MSR_IA32_QM_CTR"
  then have "(word_of_int (3216 + clos) :: u32) = word_of_int 3214"
    unfolding to_u32_def MSR_IA32_L3_MASK_0_def MSR_IA32_QM_CTR_def .
  then have "uint (word_of_int (3216 + clos) :: u32) = uint (word_of_int 3214 :: u32)"
    by (rule arg_cong)
  then have "(3216 + clos) mod 2 ^ LENGTH(32) = 3214 mod 2 ^ LENGTH(32)"
    by (simp only: uint_word_of_int)
  then have "(3216 + clos) mod 2 ^ 32 = 3214"
    by simp
  moreover have "(3216 + clos) mod 2 ^ 32 = 3216 + clos"
    using assms by (simp add: MAX_CLOS_def)
  ultimately show False using assms by simp
qed

text \<open>
  C7.  For an in-range class id on a machine with at least one CPU: when
  \<^verbatim>\<open>rdt_write_l3_mask\<close> of a bitmask succeeds and the following \<^verbatim>\<open>rdt_read_l3_mask\<close> of the
  same class succeeds, the value read is the bitmask written.
\<close>

theorem l3_mask_roundtrip:
  assumes "0 \<le> clos" "clos < MAX_CLOS" "0 < cpu_count m"
      and "rdt_write_l3_mask m clos M = (SUCCESS, m')"
      and "rdt_read_l3_mask m' clos old = (SUCCESS, v, m'')"
  shows "v = M"
proof -
  let ?a = "to_u32 (MSR_IA32_L3_MASK_0 + clos)"
  have "write_loop m ?a M 0 (cpu_count m) = (True, m')"
    using assms(2,4)
    by (auto simp add: rdt_write_l3_mask_def split: if_splits prod.splits bool.splits)
  then have held: "regs m' 0 ?a = M"
    using assms(3) by (rule write_loop_done_first)
  have "msr_read_cpu m' 0 ?a old = (SUCCESS, v, m'')"
    using assms(2,5) by (simp add: rdt_read_l3_mask_def)
  then have "v = hw_value m' 0 ?a"
    by (auto dest: msr_read_cpu_cases)
  also have "\<dots> = regs m' 0 ?a"
    using l3_addr_not_ctr [OF assms(1,2)] by (simp add: hw_value_def)
  finally show ?thesis using held by simp
qed

lemma demo_write_mask:
  "rdt_write_l3_mask demo_machine 1 0x3FF = (SUCCESS, snd (rdt_write_l3_mask demo_machine 1 0x3FF))"
  by (simp add: rdt_write_l3_mask_def write_loop.simps msr_write_cpu_def demo_machine_def
      MAX_CLOS_def SUCCESS_def ERROR_SYSTEM_def)

lemma demo_read_mask:
  "rdt_read_l3_mask (snd (rdt_write_l3_mask demo_machine 1 0x3FF)) 1 0 =
    (SUCCESS, fst (snd (rdt_read_l3_mask (snd (rdt_write_l3_mask demo_machine 1 0x3FF)) 1 0)),
     snd (snd (rdt_read_l3_mask (snd (rdt_write_l3_mask demo_machine 1 0x3FF)) 1 0)))"
  by (simp add: rdt_read_l3_mask_def rdt_write_l3_mask_def write_loop.simps msr_write_cpu_def
      msr_read_cpu_def demo_machine_def MAX_CLOS_def SUCCESS_def ERROR_SYSTEM_def)

theorem l3_mask_roundtrip_witness:
  "fst (snd (rdt_read_l3_mask (snd (rdt_write_l3_mask demo_machine 1 0x3FF)) 1 0)) = 0x3FF"
  using l3_mask_roundtrip [OF _ _ _ demo_write_mask demo_read_mask]
  by (simp add: MAX_CLOS_def demo_machine_def)

text \<open>
  C6 (as amended).  \<^verbatim>\<open>rdt_write_l3_mask\<close> rejects a class id of 16 or more with
  \<^verbatim>\<open>ERROR_INVALID_PARAM\<close> before any register access.  A zero bitmask is not rejected:
  with an accepted class id it is written to the class's mask register on every CPU
  and the call succeeds; \<^verbatim>\<open>setup_rdt_clos\<close> checks neither and writes the zero
  bitmask on CPU 0.
\<close>

theorem zero_bitmask_is_written:
  "(MAX_CLOS \<le> clos \<longrightarrow> rdt_write_l3_mask m clos msk = (ERROR_INVALID_PARAM, m))
   \<and> (clos < MAX_CLOS \<and> 0 \<le> cpu_count m
        \<and> (\<forall>j. 0 \<le> j \<and> j < cpu_count m \<longrightarrow>
               dev_ok m j \<and> wr_ok m j (to_u32 (MSR_IA32_L3_MASK_0 + clos)) 0) \<longrightarrow>
        rdt_write_l3_mask m clos 0 =
          (SUCCESS,
           m\<lparr>regs := (\<lambda>c. if 0 \<le> c \<and> c < cpu_count m
                           then (regs m c)(to_u32 (MSR_IA32_L3_MASK_0 + clos) := 0) else regs m c),
              trace := trace m @ map (\<lambda>j. Wr j (to_u32 (MSR_IA32_L3_MASK_0 + clos)) 0 True)
                                   [0..cpu_count m - 1]\<rparr>))
   \<and> (dev_ok m 0 \<and> wr_ok m 0 (to_u32 (MSR_IA32_L3_MASK_0 + clos)) 0 \<longrightarrow>
        setup_rdt_clos m mba clos 0 0 =
          (SUCCESS,
           m\<lparr>regs := (regs m)(0 := (regs m 0)(to_u32 (MSR_IA32_L3_MASK_0 + clos) := 0)),
              trace := trace m @ [Wr 0 (to_u32 (MSR_IA32_L3_MASK_0 + clos)) 0 True]\<rparr>))"
proof (intro conjI impI)
  assume "MAX_CLOS \<le> clos"
  then show "rdt_write_l3_mask m clos msk = (ERROR_INVALID_PARAM, m)"
    by (simp add: rdt_write_l3_mask_def)
next
  let ?a = "to_u32 (MSR_IA32_L3_MASK_0 + clos)"
  assume a: "clos < MAX_CLOS \<and> 0 \<le> cpu_count m
        \<and> (\<forall>j. 0 \<le> j \<and> j < cpu_count m \<longrightarrow> dev_ok m j \<and> wr_ok m j ?a 0)"
  then have "write_loop m ?a 0 0 (cpu_count m) =
     (\<not> cpu_count m < cpu_count m,
      m\<lparr>regs := (\<lambda>c. if 0 \<le> c \<and> c < cpu_count m then (regs m c)(?a := 0) else regs m c),
         trace := trace m @ map (\<lambda>j. Wr j ?a 0 True) [0..cpu_count m - 1]
                    @ (if cpu_count m < cpu_count m then [Wr (cpu_count m) ?a 0 False] else [])\<rparr>)"
    by (intro write_loop_result) simp_all
  with a show "rdt_write_l3_mask m clos 0 =
          (SUCCESS,
           m\<lparr>regs := (\<lambda>c. if 0 \<le> c \<and> c < cpu_count m then (regs m c)(?a := 0) else regs m c),
              trace := trace m @ map (\<lambda>j. Wr j ?a 0 True) [0..cpu_count m - 1]\<rparr>)"
    by (simp add: rdt_write_l3_mask_def)
next
  assume "dev_ok m 0 \<and> wr_ok m 0 (to_u32 (MSR_IA32_L3_MASK_0 + clos)) 0"
  then show "setup_rdt_clos m mba clos 0 0 =
          (SUCCESS,
           m\<lparr>regs := (regs m)(0 := (regs m 0)(to_u32 (MSR_IA32_L3_MASK_0 + clos) := 0)),
              trace := trace m @ [Wr 0 (to_u32 (MSR_IA32_L3_MASK_0 + clos)) 0 True]\<rparr>)"
    by (simp add: setup_rdt_clos_def msr_write_cpu_def)
qed

theorem zero_bitmask_is_written_witness:
  "rdt_write_l3_mask demo_machine 16 0 = (ERROR_INVALID_PARAM, demo_machine)
   \<and> fst (rdt_write_l3_mask demo_machine 1 0) = SUCCESS
   \<and> trace (snd (rdt_write_l3_mask demo_machine 1 0)) = [Wr 0 0xC91 0 True, Wr 1 0xC91 0 True]
   \<and> fst (setup_rdt_clos demo_machine False 1 0 0) = SUCCESS
   \<and> trace (snd (setup_rdt_clos demo_machine False 1 0 0)) = [Wr 0 0xC91 0 True]"
  using zero_bitmask_is_written [of 16 demo_machine 0]
        zero_bitmask_is_written [of 1 demo_machine 0 False]
  by (simp add: MAX_CLOS_def demo_machine_def to_u32_def MSR_IA32_L3_MASK_0_def upto.simps)

text \<open>
  C6 as stated fails: with every mask register holding \<open>0xFFFF\<close>, a request for class
  1 with bitmask zero succeeds, performs register writes and leaves the register at
  zero.
\<close>

theorem zero_bitmask_accepted:
  "fst (rdt_write_l3_mask (demo_machine\<lparr>regs := (\<lambda>c a. 0xFFFF)\<rparr>) 1 0) = SUCCESS
   \<and> trace (snd (rdt_write_l3_mask (demo_machine\<lparr>regs := (\<lambda>c a. 0xFFFF)\<rparr>) 1 0))
       = [Wr 0 0xC91 0 True, Wr 1 0xC91 0 True]
   \<and> regs (snd (rdt_write_l3_mask (demo_machine\<lparr>regs := (\<lambda>c a. 0xFFFF)\<rparr>) 1 0)) 0 0xC91 = 0
   \<and> fst (setup_rdt_clos (demo_machine\<lparr>regs := (\<lambda>c a. 0xFFFF)\<rparr>) False 1 0 0) = SUCCESS
   \<and> regs (snd (setup_rdt_clos (demo_machine\<lparr>regs := (\<lambda>c a. 0xFFFF)\<rparr>) False 1 0 0)) 0 0xC91 = 0"
  by (simp add: rdt_write_l3_mask_def setup_rdt_clos_def write_loop.simps msr_write_cpu_def
      demo_machine_def MAX_CLOS_def to_u32_def MSR_IA32_L3_MASK_0_def ERROR_SYSTEM_def SUCCESS_def)

section \<open>Identifier validation\<close>

lemma write_loop_first_access:
  assumes "i < n"
  shows "\<exists>ok rest. trace (snd (write_loop m msr v i n)) = trace m @ Wr i msr v ok # rest"
proof -
  show ?thesis
  proof (cases "dev_ok m i \<and> wr_ok m i msr v")
    case False
    then have "msr_write_cpu m i msr v = (ERROR_SYSTEM, m\<lparr>trace := trace m @ [Wr i msr v False]\<rparr>)"
      by (auto simp add: msr_write_cpu_def)
    with assms show ?thesis by (auto simp add: write_loop.simps [of m msr v i n])
  next
    case True
    let ?m1 = "m\<lparr>regs := (regs m)(i := (regs m i)(msr := v)), trace := trace m @ [Wr i msr v True]\<rparr>"
    from True have w: "msr_write_cpu m i msr v = (SUCCESS, ?m1)" by (simp add: msr_write_cpu_def)
    have ext: "\<exists>rest. trace (snd (write_loop m1 msr v j n)) = trace m1 @ rest" for m1 j
    proof (induction m1 msr v j n rule: write_loop.induct)
      case (1 m1 msr v j n)
      show ?case
      proof (cases "j < n")
        case False
        then show ?thesis by (simp add: write_loop.simps [of m1 msr v j n])
      next
        case True
        obtain rc m2 where w2: "msr_write_cpu m1 j msr v = (rc, m2)" by (cases "msr_write_cpu m1 j msr v")
        then obtain r1 where t2: "trace m2 = trace m1 @ r1"
          by (auto simp add: msr_write_cpu_def split: if_splits)
        show ?thesis
        proof (cases "rc = SUCCESS")
          case False
          with True w2 t2 show ?thesis by (simp add: write_loop.simps [of m1 msr v j n])
        next
          case rc: True
          from "1.IH" [OF True w2 [symmetric]] rc
          obtain r2 where "trace (snd (write_loop m2 msr v (j + 1) n)) = trace m2 @ r2" by auto
          with True w2 t2 rc show ?thesis by (simp add: write_loop.simps [of m1 msr v j n])
        qed
      qed
    qed
    from ext [of ?m1 "i + 1"] obtain rest where
      "trace (snd (write_loop ?m1 msr v (i + 1) n)) = trace ?m1 @ rest" by blast
    with assms w show ?thesis by (auto simp add: write_loop.simps [of m msr v i n])
  qed
qed

lemma msr_write_cpu_code:
  "fst (msr_write_cpu m cpu msr v) \<noteq> ERROR_INVALID_PARAM"
  by (simp add: msr_write_cpu_def)

lemma rdt_write_l3_mask_code:
  "clos < MAX_CLOS \<Longrightarrow> fst (rdt_write_l3_mask m clos msk) \<noteq> ERROR_INVALID_PARAM"
  by (auto simp add: rdt_write_l3_mask_def split: prod.splits bool.splits)

lemma rdt_set_clos_code:
  "clos < MAX_CLOS \<Longrightarrow> fst (rdt_set_clos m cpu clos) \<noteq> ERROR_INVALID_PARAM"
  by (auto simp add: rdt_set_clos_def msr_write_cpu_code split: prod.splits)

lemma rdt_monitor_set_rmid_code:
  "r < MAX_RMID \<Longrightarrow> fst (rdt_monitor_set_rmid m cpu r) \<noteq> ERROR_INVALID_PARAM"
  by (auto simp add: rdt_monitor_set_rmid_def msr_write_cpu_code split: prod.splits)

text \<open>
  C10.  The setters compare the identifier with the upper bound only.  A class id of
  16 or more (a monitoring id of 256 or more) gives \<^verbatim>\<open>ERROR_INVALID_PARAM\<close> with the
  machine, log included, untouched.  A negative identifier is never answered with
  \<^verbatim>\<open>ERROR_INVALID_PARAM\<close>: \<^verbatim>\<open>rdt_write_l3_mask\<close> starts writing at the address computed
  from it, and on an accessible CPU \<^verbatim>\<open>rdt_set_clos\<close> and \<^verbatim>\<open>rdt_monitor_set_rmid\<close> store
  the word built from it in the association register.
\<close>

theorem setters_check_upper_bound_only:
  "(MAX_CLOS \<le> clos \<longrightarrow>
      rdt_write_l3_mask m clos msk = (ERROR_INVALID_PARAM, m)
      \<and> rdt_set_clos m cpu clos = (ERROR_INVALID_PARAM, m))
   \<and> (MAX_RMID \<le> r \<longrightarrow> rdt_monitor_set_rmid m cpu r = (ERROR_INVALID_PARAM, m))
   \<and> (clos < 0 \<longrightarrow>
        fst (rdt_write_l3_mask m clos msk) \<noteq> ERROR_INVALID_PARAM
        \<and> fst (rdt_set_clos m cpu clos) \<noteq> ERROR_INVALID_PARAM)
   \<and> (r < 0 \<longrightarrow> fst (rdt_monitor_set_rmid m cpu r) \<noteq> ERROR_INVALID_PARAM)
   \<and> (clos < 0 \<and> 0 < cpu_count m \<longrightarrow>
        (\<exists>ok rest. trace (snd (rdt_write_l3_mask m clos msk))
            = trace m @ Wr 0 (to_u32 (MSR_IA32_L3_MASK_0 + clos)) msk ok # rest))
   \<and> (clos < 0 \<and> dev_ok m cpu \<and> rd_ok m cpu (to_u32 MSR_IA32_PQR_ASSOC)
        \<and> wr_ok m cpu (to_u32 MSR_IA32_PQR_ASSOC)
             ((regs m cpu (to_u32 MSR_IA32_PQR_ASSOC) AND 0xFFFFFFFF00000000) OR word_of_int clos) \<longrightarrow>
        fst (rdt_set_clos m cpu clos) = SUCCESS
        \<and> regs (snd (rdt_set_clos m cpu clos)) cpu (to_u32 MSR_IA32_PQR_ASSOC)
            = (regs m cpu (to_u32 MSR_IA32_PQR_ASSOC) AND 0xFFFFFFFF00000000) OR word_of_int clos)
   \<and> (r < 0 \<and> dev_ok m cpu \<and> rd_ok m cpu (to_u32 MSR_IA32_PQR_ASSOC)
        \<and> wr_ok m cpu (to_u32 MSR_IA32_PQR_ASSOC)
             ((regs m cpu (to_u32 MSR_IA32_PQR_ASSOC) AND 0x00000000FFFFFFFF)
                OR push_bit 32 (word_of_int r)) \<longrightarrow>
        fst (rdt_monitor_set_rmid m cpu r) = SUCCESS
        \<and> regs (snd (rdt_monitor_set_rmid m cpu r)) cpu (to_u32 MSR_IA32_PQR_ASSOC)
            = (regs m cpu (to_u32 MSR_IA32_PQR_ASSOC) AND 0x00000000FFFFFFFF)
                OR push_bit 32 (word_of_int r))"
proof (intro conjI impI)
  assume "MAX_CLOS \<le> clos"
  then show "rdt_write_l3_mask m clos msk = (ERROR_INVALID_PARAM, m)"
    and "rdt_set_clos m cpu clos = (ERROR_INVALID_PARAM, m)"
    by (simp_all add: rdt_write_l3_mask_def rdt_set_clos_def)
next
  assume "MAX_RMID \<le> r"
  then show "rdt_monitor_set_rmid m cpu r = (ERROR_INVALID_PARAM, m)"
    by (simp add: rdt_monitor_set_rmid_def)
next
  assume "clos < 0"
  then have "clos < MAX_CLOS" by (simp add: MAX_CLOS_def)
  then show "fst (rdt_write_l3_mask m clos msk) \<noteq> ERROR_INVALID_PARAM"
    and "fst (rdt_set_clos m cpu clos) \<noteq> ERROR_INVALID_PARAM"
    by (rule rdt_write_l3_mask_code, rule rdt_set_clos_code)
next
  assume "r < 0"
  then have "r < MAX_RMID" by (simp add: MAX_RMID_def)
  then show "fst (rdt_monitor_set_rmid m cpu r) \<noteq> ERROR_INVALID_PARAM"
    by (rule rdt_monitor_set_rmid_code)
next
  assume a: "clos < 0 \<and> 0 < cpu_count m"
  then have c: "\<not> MAX_CLOS \<le> clos" by (simp add: MAX_CLOS_def)
  from a have "0 < cpu_count m" by simp
  from write_loop_first_access [OF this, of m "to_u32 (MSR_IA32_L3_MASK_0 + clos)" msk]
  show "\<exists>ok rest. trace (snd (rdt_write_l3_mask m clos msk))
            = trace m @ Wr 0 (to_u32 (MSR_IA32_L3_MASK_0 + clos)) msk ok # rest"
    using c by (auto simp add: rdt_write_l3_mask_def split: prod.splits bool.splits)
next
  assume a: "clos < 0 \<and> dev_ok m cpu \<and> rd_ok m cpu (to_u32 MSR_IA32_PQR_ASSOC)
        \<and> wr_ok m cpu (to_u32 MSR_IA32_PQR_ASSOC)
             ((regs m cpu (to_u32 MSR_IA32_PQR_ASSOC) AND 0xFFFFFFFF00000000) OR word_of_int clos)"
  then have c: "\<not> MAX_CLOS \<le> clos" by (simp add: MAX_CLOS_def)
  from a c show "fst (rdt_set_clos m cpu clos) = SUCCESS"
    and "regs (snd (rdt_set_clos m cpu clos)) cpu (to_u32 MSR_IA32_PQR_ASSOC)
            = (regs m cpu (to_u32 MSR_IA32_PQR_ASSOC) AND 0xFFFFFFFF00000000) OR word_of_int clos"
    by (simp_all add: rdt_set_clos_def msr_read_cpu_def msr_write_cpu_def hw_value_def assoc_not_ctr)
next
  assume a: "r < 0 \<and> dev_ok m cpu \<and> rd_ok m cpu (to_u32 MSR_IA32_PQR_ASSOC)
        \<and> wr_ok m cpu (to_u32 MSR_IA32_PQR_ASSOC)
             ((regs m cpu (to_u32 MSR_IA32_PQR_ASSOC) AND 0x00000000FFFFFFFF)
                OR push_bit 32 (word_of_int r))"
  then have c: "\<not> MAX_RMID \<le> r" by (simp add: MAX_RMID_def)
  from a c show "fst (rdt_monitor_set_rmid m cpu r) = SUCCESS"
    and "regs (snd (rdt_monitor_set_rmid m cpu r)) cpu (to_u32 MSR_IA32_PQR_ASSOC)
            = (regs m cpu (to_u32 MSR_IA32_PQR_ASSOC) AND 0x00000000FFFFFFFF)
                OR push_bit 32 (word_of_int r)"
    by (simp_all add: rdt_monitor_set_rmid_def msr_read_cpu_def msr_write_cpu_def hw_value_def assoc_not_ctr)
qed

theorem setters_check_upper_bound_only_witness:
  "rdt_write_l3_mask demo_machine 16 0xFF = (ERROR_INVALID_PARAM, demo_machine)
   \<and> rdt_set_clos demo_machine 0 16 = (ERROR_INVALID_PARAM, demo_machine)
   \<and> rdt_monitor_set_rmid demo_machine 0 256 = (ERROR_INVALID_PARAM, demo_machine)
   \<and> fst (rdt_write_l3_mask demo_machine (- 1) 0xFF) \<noteq> ERROR_INVALID_PARAM
   \<and> (\<exists>ok rest. trace (snd (rdt_write_l3_mask demo_machine (- 1) 0xFF))
          = Wr 0 (to_u32 MSR_IA32_PQR_ASSOC) 0xFF ok # rest)
   \<and> fst (rdt_set_clos demo_machine 0 (- 1)) = SUCCESS
   \<and> regs (snd (rdt_set_clos demo_machine 0 (- 1))) 0 (to_u32 MSR_IA32_PQR_ASSOC) = 0xFFFFFFFFFFFFFFFF
   \<and> fst (rdt_monitor_set_rmid demo_machine 0 (- 1)) = SUCCESS
   \<and> regs (snd (rdt_monitor_set_rmid demo_machine 0 (- 1))) 0 (to_u32 MSR_IA32_PQR_ASSOC)
       = 0xFFFFFFFF00000003"
  using setters_check_upper_bound_only [of 16 demo_machine "0xFF" 0 256]
        setters_check_upper_bound_only [of "- 1" demo_machine "0xFF" 0 "- 1"]
  by (simp add: MAX_CLOS_def MAX_RMID_def demo_assoc)
     (simp add: demo_machine_def to_u32_def MSR_IA32_L3_MASK_0_def MSR_IA32_PQR_ASSOC_def
        mask_eq_exp_minus_1)

section \<open>Class switching\<close>

lemma rdt_set_clos_accessible:
  assumes "dev_ok m cpu" "rd_ok m cpu (to_u32 MSR_IA32_PQR_ASSOC)"
      and "\<forall>v. wr_ok m cpu (to_u32 MSR_IA32_PQR_ASSOC) v" "clos < MAX_CLOS"
  shows "rdt_set_clos m cpu clos =
     (SUCCESS,
      m\<lparr>regs := (regs m)(cpu := (regs m cpu)(to_u32 MSR_IA32_PQR_ASSOC :=
                   (regs m cpu (to_u32 MSR_IA32_PQR_ASSOC) AND 0xFFFFFFFF00000000) OR word_of_int clos)),
         trace := trace m @ [Rd cpu (to_u32 MSR_IA32_PQR_ASSOC) True,
                             Wr cpu (to_u32 MSR_IA32_PQR_ASSOC)
                               ((regs m cpu (to_u32 MSR_IA32_PQR_ASSOC) AND 0xFFFFFFFF00000000)
                                  OR word_of_int clos) True]\<rparr>)"
  using assms
  by (simp add: rdt_set_clos_def msr_read_cpu_def msr_write_cpu_def hw_value_def assoc_not_ctr)

lemma switch_loop_done: "\<not> i < n \<Longrightarrow> switch_loop m i n = m"
  by (simp add: switch_loop.simps [of m i n])

lemma switch_loop_effect:
  "dev_ok m 0 \<Longrightarrow> rd_ok m 0 (to_u32 MSR_IA32_PQR_ASSOC) \<Longrightarrow>
   \<forall>v. wr_ok m 0 (to_u32 MSR_IA32_PQR_ASSOC) v \<Longrightarrow> i \<le> n \<Longrightarrow> 0 \<le> i \<Longrightarrow>
   applied_writes (to_u32 MSR_IA32_PQR_ASSOC) (trace (switch_loop m i n))
     = applied_writes (to_u32 MSR_IA32_PQR_ASSOC) (trace m) + nat (n - i)
   \<and> drop_bit 32 (regs (switch_loop m i n) 0 (to_u32 MSR_IA32_PQR_ASSOC))
       = drop_bit 32 (regs m 0 (to_u32 MSR_IA32_PQR_ASSOC))
   \<and> (i < n \<longrightarrow> take_bit 32 (regs (switch_loop m i n) 0 (to_u32 MSR_IA32_PQR_ASSOC))
                    = (if (n - 1) mod 2 \<noteq> 0 then 1 else 0))"
proof (induction m i n rule: switch_loop.induct)
  case (1 m i n)
  let ?A = "to_u32 MSR_IA32_PQR_ASSOC"
  show ?case
  proof (cases "i < n")
    case False
    then have "switch_loop m i n = m" by (simp add: switch_loop.simps [of m i n])
    with False "1.prems" show ?thesis by simp
  next
    case True
    let ?c = "if i mod 2 \<noteq> 0 then 1 else 0 :: int"
    let ?w = "(regs m 0 ?A AND 0xFFFFFFFF00000000) OR word_of_int ?c"
    let ?m1 = "m\<lparr>regs := (regs m)(0 := (regs m 0)(?A := ?w)),
                 trace := trace m @ [Rd 0 ?A True, Wr 0 ?A ?w True]\<rparr>"
    have c: "0 \<le> ?c" "?c < 2 ^ 32" "?c < MAX_CLOS" by (simp_all add: MAX_CLOS_def)
    have s: "rdt_set_clos m 0 ?c = (SUCCESS, ?m1)"
      by (rule rdt_set_clos_accessible [OF "1.prems"(1,2,3) c(3)])
    have step: "switch_loop m i n = switch_loop ?m1 (i + 1) n"
      using True s by (simp add: switch_loop.simps [of m i n])
    have ih: "applied_writes ?A (trace (switch_loop ?m1 (i + 1) n))
                 = applied_writes ?A (trace ?m1) + nat (n - (i + 1))
       \<and> drop_bit 32 (regs (switch_loop ?m1 (i + 1) n) 0 ?A) = drop_bit 32 (regs ?m1 0 ?A)
       \<and> (i + 1 < n \<longrightarrow> take_bit 32 (regs (switch_loop ?m1 (i + 1) n) 0 ?A)
                    = (if (n - 1) mod 2 \<noteq> 0 then 1 else 0))"
      using "1.prems" True s
      by (intro "1.IH" [OF True, unfolded s snd_conv]) simp_all
    have cnt: "applied_writes ?A (trace ?m1) = applied_writes ?A (trace m) + 1"
      by (simp add: applied_writes_def)
    have hi: "drop_bit 32 (regs ?m1 0 ?A) = drop_bit 32 (regs m 0 ?A)"
      using set_low_half_keeps_high [OF small_id_high_zero [OF c(1,2)], of "regs m 0 ?A"]
      by (simp add: hi_half_mask)
    have lo: "take_bit 32 (regs ?m1 0 ?A) = word_of_int ?c"
      using set_low_half_low [of "regs m 0 ?A" "word_of_int ?c"] small_id_low [OF c(1,2)]
      by (simp add: hi_half_mask)
    show ?thesis
    proof (cases "i + 1 < n")
      case True
      with ih cnt hi \<open>i < n\<close> show ?thesis unfolding step by (simp add: nat_diff_distrib)
    next
      case False
      with \<open>i < n\<close> have n: "n = i + 1" by simp
      have "switch_loop ?m1 (i + 1) n = ?m1"
        using False by (rule switch_loop_done)
      with cnt hi lo n show ?thesis unfolding step by simp
    qed
  qed
qed

lemma demo_accessible:
  "dev_ok demo_machine 0" "rd_ok demo_machine 0 a" "\<forall>v. wr_ok demo_machine 0 a v"
  "trace demo_machine = []"
  by (simp_all add: demo_machine_def)

text \<open>
  C5 (as amended).  The code has no minimum interval and no deferred request: every
  \<^verbatim>\<open>rdt_set_clos\<close> call of the switching loop that reaches an accessible CPU performs
  its read-modify-write at once.  \<open>n\<close> back-to-back calls give exactly \<open>n\<close> writes of the
  association word, the class half ends as the last requested class, and the
  monitoring half is as before.
\<close>

theorem switching_applies_every_request:
  assumes "dev_ok m 0" "rd_ok m 0 (to_u32 MSR_IA32_PQR_ASSOC)"
      and "\<forall>v. wr_ok m 0 (to_u32 MSR_IA32_PQR_ASSOC) v" "0 < n"
  shows "applied_writes (to_u32 MSR_IA32_PQR_ASSOC) (trace (switch_loop m 0 n))
           = applied_writes (to_u32 MSR_IA32_PQR_ASSOC) (trace m) + nat n
       \<and> take_bit 32 (regs (switch_loop m 0 n) 0 (to_u32 MSR_IA32_PQR_ASSOC))
           = (if (n - 1) mod 2 \<noteq> 0 then 1 else 0)
       \<and> drop_bit 32 (regs (switch_loop m 0 n) 0 (to_u32 MSR_IA32_PQR_ASSOC))
           = drop_bit 32 (regs m 0 (to_u32 MSR_IA32_PQR_ASSOC))"
  using switch_loop_effect [OF assms(1,2,3), of 0 n] assms(4) by simp

theorem switching_applies_every_request_witness:
  "applied_writes (to_u32 MSR_IA32_PQR_ASSOC) (trace (switch_loop demo_machine 0 4)) = 4
   \<and> take_bit 32 (regs (switch_loop demo_machine 0 4) 0 (to_u32 MSR_IA32_PQR_ASSOC)) = 1
   \<and> drop_bit 32 (regs (switch_loop demo_machine 0 4) 0 (to_u32 MSR_IA32_PQR_ASSOC)) = 5"
  using switching_applies_every_request [OF demo_accessible(1,2,3), of 4]
  by (simp add: demo_accessible(4) demo_assoc applied_writes_def)

text \<open>
  C5 as stated fails: the 1000 back-to-back requests of the switching loop give 1000
  writes of the association word, not fewer.
\<close>

theorem thousand_requests_thousand_writes:
  "applied_writes (to_u32 MSR_IA32_PQR_ASSOC) (trace (switch_loop demo_machine 0 1000)) = 1000
   \<and> \<not> applied_writes (to_u32 MSR_IA32_PQR_ASSOC) (trace (switch_loop demo_machine 0 1000)) < 1000"
  using switch_loop_effect [OF demo_accessible(1,2,3), of 0 1000]
  by (simp add: demo_accessible(4) applied_writes_def)

section \<open>Counter sampling\<close>

lemma evtsel_not_ctr: "to_u32 MSR_IA32_QM_EVTSEL \<noteq> to_u32 MSR_IA32_QM_CTR"
  by (simp add: to_u32_def MSR_IA32_QM_EVTSEL_def MSR_IA32_QM_CTR_def)

lemma select_ok:
  assumes "dev_ok m 0" "\<forall>v. wr_ok m 0 (to_u32 MSR_IA32_QM_EVTSEL) v"
  shows "msr_write_cpu m 0 (to_u32 MSR_IA32_QM_EVTSEL) sel = (SUCCESS, selected m sel)"
  using assms by (simp add: msr_write_cpu_def selected_def)

lemma read_ok:
  assumes "dev_ok m 0" "rd_ok m 0 (to_u32 MSR_IA32_QM_CTR)"
  shows "msr_read_cpu (selected m sel) 0 (to_u32 MSR_IA32_QM_CTR) old
           = (SUCCESS, qm_ctr m 0 sel, sampled m sel)"
  using assms by (simp add: msr_read_cpu_def hw_value_def selected_def sampled_def)

lemma sampled_access [simp]:
  "dev_ok (sampled m sel) = dev_ok m" "wr_ok (sampled m sel) = wr_ok m"
  "rd_ok (sampled m sel) = rd_ok m" "qm_ctr (sampled m sel) = qm_ctr m"
  by (simp_all add: sampled_def)

lemma trace_sampled:
  "trace (sampled m sel) = trace m @ [Wr 0 (to_u32 MSR_IA32_QM_EVTSEL) sel True,
                                      Rd 0 (to_u32 MSR_IA32_QM_CTR) True]"
  by (simp add: sampled_def)

lemma readers_accessible:
  assumes "dev_ok m 0" "\<forall>v. wr_ok m 0 (to_u32 MSR_IA32_QM_EVTSEL) v"
      and "rd_ok m 0 (to_u32 MSR_IA32_QM_CTR)"
  shows "rdt_monitor_read_llc_occupancy m i old =
           (SUCCESS, qm_ctr m 0 (word_of_int i OR push_bit 32 1) * 64,
            sampled m (word_of_int i OR push_bit 32 1))"
    and "rdt_monitor_read_mbm_total m i old =
           (SUCCESS, qm_ctr m 0 (word_of_int i OR push_bit 32 2),
            sampled m (word_of_int i OR push_bit 32 2))"
    and "rdt_monitor_read_mbm_local m i old =
           (SUCCESS, qm_ctr m 0 (word_of_int i OR push_bit 32 3),
            sampled m (word_of_int i OR push_bit 32 3))"
  by (simp_all add: rdt_monitor_read_llc_occupancy_def rdt_monitor_read_mbm_total_def
      rdt_monitor_read_mbm_local_def Let_def select_ok [OF assms(1,2)] read_ok [OF assms(1,3)])

lemma all_fields_updated:
  "(c :: rdt_monitor_data_t)\<lparr>timestamp := t, rmid := i, llc_occupancy := a, mbm_total := b, mbm_local := d\<rparr>
     = \<lparr>rmid = i, llc_occupancy = a, mbm_total = b, mbm_local = d, timestamp = t\<rparr>"
  by (cases c) simp

lemma rdt_monitor_round_accessible:
  assumes "dev_ok m 0" "\<forall>v. wr_ok m 0 (to_u32 MSR_IA32_QM_EVTSEL) v"
      and "rd_ok m 0 (to_u32 MSR_IA32_QM_CTR)"
  shows "rdt_monitor_round m st now prev cur =
     (Some (monitor_report st prev
              \<lparr>rmid = 0, llc_occupancy = qm_ctr m 0 (push_bit 32 1) * 64,
               mbm_total = qm_ctr m 0 (push_bit 32 2),
               mbm_local = qm_ctr m 0 (push_bit 32 3), timestamp = now\<rparr>,
            \<lparr>rmid = 0, llc_occupancy = qm_ctr m 0 (push_bit 32 1) * 64,
               mbm_total = qm_ctr m 0 (push_bit 32 2),
               mbm_local = qm_ctr m 0 (push_bit 32 3), timestamp = now\<rparr>),
      sampled (sampled (sampled m (push_bit 32 1)) (push_bit 32 2)) (push_bit 32 3))"
proof -
  have a1: "dev_ok (sampled m s) 0" "\<forall>v. wr_ok (sampled m s) 0 (to_u32 MSR_IA32_QM_EVTSEL) v"
    "rd_ok (sampled m s) 0 (to_u32 MSR_IA32_QM_CTR)" for s
    using assms by simp_all
  have a2: "dev_ok (sampled (sampled m s) s') 0"
    "\<forall>v. wr_ok (sampled (sampled m s) s') 0 (to_u32 MSR_IA32_QM_EVTSEL) v"
    "rd_ok (sampled (sampled m s) s') 0 (to_u32 MSR_IA32_QM_CTR)" for s s'
    using assms by simp_all
  show ?thesis
    unfolding rdt_monitor_round_def Let_def
    by (simp add: readers_accessible(1) [OF assms] readers_accessible(2) [OF a1]
        readers_accessible(3) [OF a2] all_fields_updated)
qed

lemma metrics_round_accessible:
  assumes "dev_ok m 0" "\<forall>v. wr_ok m 0 (to_u32 MSR_IA32_QM_EVTSEL) v"
      and "rd_ok m 0 (to_u32 MSR_IA32_QM_CTR)"
  shows "metrics_round m st now p =
     ((if prev_timestamp p > 0 then
         Some \<lparr>mrow_elapsed = now - st,
               mrow_llc_kb = qm_ctr m 0 (push_bit 32 1) * 64 div 1024,
               mrow_total_mbs =
                 (if now - prev_timestamp p > 0
                  then (qm_ctr m 0 (push_bit 32 2) - prev_mbm_total p) * 1000000
                         div (now - prev_timestamp p)
                  else 0) div (1024 * 1024),
               mrow_local_mbs =
                 (if now - prev_timestamp p > 0
                  then (qm_ctr m 0 (push_bit 32 3) - prev_mbm_local p) * 1000000
                         div (now - prev_timestamp p)
                  else 0) div (1024 * 1024)\<rparr>
       else None),
      \<lparr>prev_mbm_total = qm_ctr m 0 (push_bit 32 2),
       prev_mbm_local = qm_ctr m 0 (push_bit 32 3), prev_timestamp = now\<rparr>,
      sampled (sampled (sampled m (push_bit 32 1)) (push_bit 32 2)) (push_bit 32 3))"
proof -
  have a1: "dev_ok (sampled m s) 0" "\<forall>v. wr_ok (sampled m s) 0 (to_u32 MSR_IA32_QM_EVTSEL) v"
    "rd_ok (sampled m s) 0 (to_u32 MSR_IA32_QM_CTR)" for s
    using assms by simp_all
  have a2: "dev_ok (sampled (sampled m s) s') 0"
    "\<forall>v. wr_ok (sampled (sampled m s) s') 0 (to_u32 MSR_IA32_QM_EVTSEL) v"
    "rd_ok (sampled (sampled m s) s') 0 (to_u32 MSR_IA32_QM_CTR)" for s s'
    using assms by simp_all
  show ?thesis
    unfolding metrics_round_def
    by (simp add: select_ok [OF assms(1,2)] read_ok [OF assms(1,3)]
        select_ok [OF a1(1,2)] read_ok [OF a1(1,3)]
        select_ok [OF a2(1,2)] read_ok [OF a2(1,3)] Let_def)
qed



section \<open>Rates\<close>

lemma demo_counters_accessible:
  "dev_ok (demo_machine\<lparr>qm_ctr := f\<rparr>) 0"
  "\<forall>v. wr_ok (demo_machine\<lparr>qm_ctr := f\<rparr>) 0 a v"
  "rd_ok (demo_machine\<lparr>qm_ctr := f\<rparr>) 0 a"
  by (simp_all add: demo_machine_def)




lemma rdt_monitor_round_line:
  assumes "rdt_monitor_round m st now prev cur = (Some (Some row, c), m')"
  shows "timestamp prev \<noteq> 0 \<and> now \<noteq> timestamp prev"
proof -
  from assms obtain c3 where r: "monitor_report st prev c3 = Some row" and t: "timestamp c3 = now"
    by (auto simp add: rdt_monitor_round_def Let_def split: prod.splits if_splits)
  from r have "0 < timestamp prev" "0 < timestamp c3 - timestamp prev"
    by (auto simp add: monitor_report_def Let_def split: if_splits)
  with t show ?thesis by auto
qed

lemma rdt_monitor_first_round_silent:
  "fst (rdt_monitor_continuous m d st [t]) = []"
proof -
  have "line = None" if "rdt_monitor_round m' st now zero_data cur = (Some (line, c), m'')"
    for m' now cur line c m''
  proof (cases line)
    case (Some row)
    with that rdt_monitor_round_line [of m' st now zero_data cur row c m'']
    show ?thesis by (simp add: zero_data_def)
  qed simp
  then have "\<not> rdt_monitor_round m' st now zero_data cur = (Some (Some row, c), m'')"
    for m' now cur row c m''
    by fastforce
  then show ?thesis
    by (auto simp add: rdt_monitor_continuous_def Let_def split: prod.splits option.splits)
qed

text \<open>
  C4 fails in \<^verbatim>\<open>monitor_rdt_metrics\<close>.  Its \<^verbatim>\<open>prev_timestamp\<close> starts as the start time,
  so the test \<^verbatim>\<open>prev_timestamp > 0\<close> holds in the first round: the first sample is
  printed as a rate against a previous value of zero (5000000 MB/s here), or as a rate
  of zero when the clock has not moved.  \<^verbatim>\<open>rdt_monitor_continuous\<close> prints nothing for
  the same first sample.
\<close>

theorem monitor_rdt_metrics_first_sample_rate:
  "fst (monitor_rdt_metrics demo_machine 10 1000000
      [\<lparr>t_running = True, t_check = 1000001, t_stamp = 1000002, t_ctr = (\<lambda>c s. 10485760)\<rparr>])
     = [\<lparr>mrow_elapsed = 2, mrow_llc_kb = 655360, mrow_total_mbs = 5000000,
         mrow_local_mbs = 5000000\<rparr>]
   \<and> fst (monitor_rdt_metrics demo_machine 10 1000000
      [\<lparr>t_running = True, t_check = 1000000, t_stamp = 1000000, t_ctr = (\<lambda>c s. 10485760)\<rparr>])
     = [\<lparr>mrow_elapsed = 0, mrow_llc_kb = 655360, mrow_total_mbs = 0, mrow_local_mbs = 0\<rparr>]
   \<and> fst (rdt_monitor_continuous demo_machine 10 1000000
      [\<lparr>t_running = True, t_check = 1000001, t_stamp = 1000002, t_ctr = (\<lambda>c s. 10485760)\<rparr>])
     = []"
  by (simp add: monitor_rdt_metrics_def rdt_monitor_continuous_def
      metrics_round_accessible [OF demo_counters_accessible]
      rdt_monitor_round_accessible [OF demo_counters_accessible]
      monitor_report_def zero_data_def Let_def)

section \<open>Select, then read\<close>

lemma sample_log_append:
  "sample_log i e t1 = Some e' \<Longrightarrow> sample_log i e (t1 @ t2) = sample_log i e' t2"
  by (induction i e t1 rule: sample_log.induct) (auto split: if_splits)

lemma selector_fields:
  assumes "0 \<le> i" "i < 2 ^ 32" "take_bit 32 (k :: u64) = k"
  shows "take_bit 32 (word_of_int i OR push_bit 32 k) = (word_of_int i :: u64)"
    and "drop_bit 32 (word_of_int i OR push_bit 32 k) = k"
proof -
  have lo: "take_bit 32 (word_of_int i :: u64) = word_of_int i"
    by (rule small_id_low [OF assms(1,2)])
  have hi: "drop_bit 32 (word_of_int i :: u64) = 0"
    by (rule small_id_high_zero [OF assms(1,2)])
  have "take_bit 32 (word_of_int i OR push_bit 32 k) = take_bit 32 (word_of_int i :: u64)"
    by (rule bit_eqI) (auto simp add: bit_simps)
  with lo show "take_bit 32 (word_of_int i OR push_bit 32 k) = (word_of_int i :: u64)" by simp
  have "drop_bit 32 (word_of_int i OR push_bit 32 k) = drop_bit 32 (word_of_int i) OR take_bit 32 k"
    by (rule bit_eqI) (auto simp add: bit_simps)
  with hi assms(3) show "drop_bit 32 (word_of_int i OR push_bit 32 k) = k" by simp
qed

lemma unit_refused:
  assumes "take_bit 32 sel = word_of_int i" "drop_bit 32 sel = of_nat (Suc e)"
  shows "sample_log i e [Wr 0 (to_u32 MSR_IA32_QM_EVTSEL) sel False] = Some (Suc e mod 3)"
  using assms by simp

lemma unit_read:
  assumes "take_bit 32 sel = word_of_int i" "drop_bit 32 sel = of_nat (Suc e)"
  shows "sample_log i e [Wr 0 (to_u32 MSR_IA32_QM_EVTSEL) sel True,
                         Rd 0 (to_u32 MSR_IA32_QM_CTR) ok] = Some (Suc e mod 3)"
  using assms by simp

lemma reader_shape_log:
  assumes "take_bit 32 sel = word_of_int i" "drop_bit 32 sel = of_nat (Suc e)"
  shows "\<exists>t. trace (snd (snd
           (case msr_write_cpu m 0 (to_u32 MSR_IA32_QM_EVTSEL) sel of
              (rc1, m1) \<Rightarrow>
                if rc1 \<noteq> SUCCESS then (ERROR_SYSTEM, old, m1)
                else
                  (case msr_read_cpu m1 0 (to_u32 MSR_IA32_QM_CTR) old of
                     (rc2, v, m2) \<Rightarrow>
                       if rc2 \<noteq> SUCCESS then (ERROR_SYSTEM, v, m2)
                       else (SUCCESS, f v, m2))))) = trace m @ t
            \<and> sample_log i e t = Some (Suc e mod 3)"
proof (cases "dev_ok m 0 \<and> wr_ok m 0 (to_u32 MSR_IA32_QM_EVTSEL) sel")
  case False
  then show ?thesis
    using unit_refused [OF assms] by (auto simp add: msr_write_cpu_def)
next
  case True
  then show ?thesis
    using unit_read [OF assms, of True] unit_read [OF assms, of False]
    by (auto simp add: msr_write_cpu_def msr_read_cpu_def)
qed

lemma small_event: "take_bit 32 (1 :: u64) = 1" "take_bit 32 (2 :: u64) = 2" "take_bit 32 (3 :: u64) = 3"
  by (simp_all add: take_bit_eq_mod)

lemma reader_logs:
  assumes "0 \<le> i" "i < 2 ^ 32"
  shows "\<exists>t. trace (snd (snd (rdt_monitor_read_llc_occupancy m i old))) = trace m @ t
             \<and> sample_log i 0 t = Some 1"
    and "\<exists>t. trace (snd (snd (rdt_monitor_read_mbm_total m i old))) = trace m @ t
             \<and> sample_log i 1 t = Some 2"
    and "\<exists>t. trace (snd (snd (rdt_monitor_read_mbm_local m i old))) = trace m @ t
             \<and> sample_log i 2 t = Some 0"
proof -
  have g1: "drop_bit 32 (word_of_int i OR push_bit 32 1 :: u64) = of_nat (Suc 0)"
    using selector_fields(2) [OF assms small_event(1)] by simp
  have g2: "drop_bit 32 (word_of_int i OR push_bit 32 2 :: u64) = of_nat (Suc 1)"
    using selector_fields(2) [OF assms small_event(2)] by simp
  have g3: "drop_bit 32 (word_of_int i OR push_bit 32 3 :: u64) = of_nat (Suc 2)"
    using selector_fields(2) [OF assms small_event(3)] by simp
  show "\<exists>t. trace (snd (snd (rdt_monitor_read_llc_occupancy m i old))) = trace m @ t
             \<and> sample_log i 0 t = Some 1"
    unfolding rdt_monitor_read_llc_occupancy_def Let_def
    using reader_shape_log [OF selector_fields(1) [OF assms small_event(1)] g1,
            where m = m and old = old and f = "\<lambda>v. v * 64"]
    by simp
  show "\<exists>t. trace (snd (snd (rdt_monitor_read_mbm_total m i old))) = trace m @ t
             \<and> sample_log i 1 t = Some 2"
    unfolding rdt_monitor_read_mbm_total_def Let_def
    using reader_shape_log [OF selector_fields(1) [OF assms small_event(2)] g2,
            where m = m and old = old and f = "\<lambda>v. v"]
    by (simp add: numeral_2_eq_2)
  show "\<exists>t. trace (snd (snd (rdt_monitor_read_mbm_local m i old))) = trace m @ t
             \<and> sample_log i 2 t = Some 0"
    unfolding rdt_monitor_read_mbm_local_def Let_def
    using reader_shape_log [OF selector_fields(1) [OF assms small_event(3)] g3,
            where m = m and old = old and f = "\<lambda>v. v"]
    by simp
qed

lemma rdt_monitor_round_log:
  "\<exists>t e. trace (snd (rdt_monitor_round m st now prev cur)) = trace m @ t
         \<and> sample_log 0 0 t = Some e
         \<and> (fst (rdt_monitor_round m st now prev cur) \<noteq> None \<longrightarrow> e = 0)"
proof -
  obtain rc1 v1 m1 where r1: "rdt_monitor_read_llc_occupancy m 0 (llc_occupancy cur) = (rc1, v1, m1)"
    by (cases "rdt_monitor_read_llc_occupancy m 0 (llc_occupancy cur)")
  obtain rc2 v2 m2 where r2: "rdt_monitor_read_mbm_total m1 0 (mbm_total cur) = (rc2, v2, m2)"
    by (cases "rdt_monitor_read_mbm_total m1 0 (mbm_total cur)")
  obtain rc3 v3 m3 where r3: "rdt_monitor_read_mbm_local m2 0 (mbm_local cur) = (rc3, v3, m3)"
    by (cases "rdt_monitor_read_mbm_local m2 0 (mbm_local cur)")
  from reader_logs(1) [of 0 m "llc_occupancy cur"] r1
  obtain t1 where t1: "trace m1 = trace m @ t1" "sample_log 0 0 t1 = Some 1" by auto
  from reader_logs(2) [of 0 m1 "mbm_total cur"] r2
  obtain t2 where t2: "trace m2 = trace m1 @ t2" "sample_log 0 1 t2 = Some 2" by auto
  from reader_logs(3) [of 0 m2 "mbm_local cur"] r3
  obtain t3 where t3: "trace m3 = trace m2 @ t3" "sample_log 0 2 t3 = Some 0" by auto
  have l2: "sample_log 0 0 (t1 @ t2) = Some 2"
    using sample_log_append [OF t1(2), of t2] t2(2) by simp
  have l3: "sample_log 0 0 (t1 @ t2 @ t3) = Some 0"
    using sample_log_append [OF l2, of t3] t3(2) by simp
  show ?thesis
  proof (cases "rc1 \<noteq> SUCCESS")
    case True
    then have "rdt_monitor_round m st now prev cur = (None, m1)"
      by (simp add: rdt_monitor_round_def Let_def r1)
    with t1 show ?thesis by simp
  next
    case c1: False
    show ?thesis
    proof (cases "rc2 \<noteq> SUCCESS")
      case True
      with c1 have "rdt_monitor_round m st now prev cur = (None, m2)"
        by (simp add: rdt_monitor_round_def Let_def r1 r2)
      with t1 t2 l2 show ?thesis by simp
    next
      case c2: False
      show ?thesis
      proof (cases "rc3 \<noteq> SUCCESS")
        case True
        with c1 c2 have "rdt_monitor_round m st now prev cur = (None, m3)"
          by (simp add: rdt_monitor_round_def Let_def r1 r2 r3)
        with t1 t2 t3 l3 show ?thesis by simp
      next
        case False
        with c1 c2 have "snd (rdt_monitor_round m st now prev cur) = m3"
          by (simp add: rdt_monitor_round_def Let_def r1 r2 r3)
        with t1 t2 t3 l3 show ?thesis by simp
      qed
    qed
  qed
qed

lemma rdt_monitor_loop_log:
  "\<exists>t e. trace (snd (rdt_monitor_loop m st en prev cur ticks)) = trace m @ t
         \<and> sample_log 0 0 t = Some e"
proof (induction ticks arbitrary: m prev cur)
  case Nil
  show ?case by simp
next
  case (Cons tk ticks)
  show ?case
  proof (cases "t_running tk \<and> t_check tk < en")
    case False
    then show ?thesis by auto
  next
    case True
    let ?m0 = "m\<lparr>qm_ctr := t_ctr tk\<rparr>"
    obtain res m' where r: "rdt_monitor_round ?m0 st (t_stamp tk) prev cur = (res, m')"
      by (cases "rdt_monitor_round ?m0 st (t_stamp tk) prev cur")
    from rdt_monitor_round_log [of ?m0 st "t_stamp tk" prev cur] r
    obtain t1 e1 where t1: "trace m' = trace m @ t1" "sample_log 0 0 t1 = Some e1"
      "res \<noteq> None \<longrightarrow> e1 = 0" by auto
    show ?thesis
    proof (cases res)
      case None
      with True r t1 show ?thesis by simp
    next
      case (Some lc)
      obtain line cur' where lc: "lc = (line, cur')" by (cases lc)
      from Cons.IH [of m' cur' cur'] obtain t2 e2 where
        t2: "trace (snd (rdt_monitor_loop m' st en cur' cur' ticks)) = trace m' @ t2"
            "sample_log 0 0 t2 = Some e2" by blast
      from Some t1 have "sample_log 0 0 t1 = Some 0" by simp
      from sample_log_append [OF this, of t2] t2(2)
      have "sample_log 0 0 (t1 @ t2) = Some e2" by simp
      moreover have "trace (snd (rdt_monitor_loop m st en prev cur (tk # ticks))) = trace m @ t1 @ t2"
        using True r Some lc t1(1) t2(1) by (auto split: prod.splits)
      ultimately show ?thesis by blast
    qed
  qed
qed

lemma probe_log:
  assumes "take_bit 32 sel = word_of_int i" "drop_bit 32 sel = of_nat (Suc e)"
  shows "\<exists>t. trace (probe m sel) = trace m @ t \<and> sample_log i e t = Some (Suc e mod 3)"
proof (cases "dev_ok m 0 \<and> wr_ok m 0 (to_u32 MSR_IA32_QM_EVTSEL) sel")
  case False
  then show ?thesis
    using unit_refused [OF assms] by (auto simp add: probe_def msr_write_cpu_def)
next
  case True
  then show ?thesis
    using unit_read [OF assms, of True] unit_read [OF assms, of False]
    by (auto simp add: probe_def msr_write_cpu_def msr_read_cpu_def)
qed

lemma metrics_round_machine:
  "snd (snd (metrics_round m st now p))
     = probe (probe (probe m (0 OR push_bit 32 1)) (0 OR push_bit 32 2)) (0 OR push_bit 32 3)"
  unfolding metrics_round_def probe_def Let_def
  by (simp add: case_prod_beta)

lemma metrics_round_log:
  "\<exists>t. trace (snd (snd (metrics_round m st now p))) = trace m @ t \<and> sample_log 0 0 t = Some 0"
proof -
  have z: "(0 :: int) \<le> 0" "(0 :: int) < 2 ^ 32" by simp_all
  have f1: "take_bit 32 (0 OR push_bit 32 1 :: u64) = word_of_int 0"
           "drop_bit 32 (0 OR push_bit 32 1 :: u64) = of_nat (Suc 0)"
    using selector_fields [OF z small_event(1)] by simp_all
  have f2: "take_bit 32 (0 OR push_bit 32 2 :: u64) = word_of_int 0"
           "drop_bit 32 (0 OR push_bit 32 2 :: u64) = of_nat (Suc 1)"
    using selector_fields [OF z small_event(2)] by simp_all
  have f3: "take_bit 32 (0 OR push_bit 32 3 :: u64) = word_of_int 0"
           "drop_bit 32 (0 OR push_bit 32 3 :: u64) = of_nat (Suc 2)"
    using selector_fields [OF z small_event(3)] by simp_all
  let ?m1 = "probe m (0 OR push_bit 32 1)"
  let ?m2 = "probe ?m1 (0 OR push_bit 32 2)"
  let ?m3 = "probe ?m2 (0 OR push_bit 32 3)"
  from probe_log [OF f1, of m] obtain t1 where
    t1: "trace ?m1 = trace m @ t1" "sample_log 0 0 t1 = Some 1" by auto
  from probe_log [OF f2, of ?m1] obtain t2 where
    t2: "trace ?m2 = trace ?m1 @ t2" "sample_log 0 1 t2 = Some 2" by (auto simp add: numeral_2_eq_2)
  from probe_log [OF f3, of ?m2] obtain t3 where
    t3: "trace ?m3 = trace ?m2 @ t3" "sample_log 0 2 t3 = Some 0" by auto
  have l2: "sample_log 0 0 (t1 @ t2) = Some 2"
    using sample_log_append [OF t1(2), of t2] t2(2) by simp
  have l3: "sample_log 0 0 (t1 @ t2 @ t3) = Some 0"
    using sample_log_append [OF l2, of t3] t3(2) by simp
  have "trace ?m3 = trace m @ t1 @ t2 @ t3" using t1(1) t2(1) t3(1) by simp
  with l3 show ?thesis unfolding metrics_round_machine by blast
qed

lemma metrics_loop_log:
  "\<exists>t. trace (snd (metrics_loop m st en p ticks)) = trace m @ t \<and> sample_log 0 0 t = Some 0"
proof (induction ticks arbitrary: m p)
  case Nil
  show ?case by simp
next
  case (Cons tk ticks)
  show ?case
  proof (cases "t_check tk < en")
    case False
    then show ?thesis by auto
  next
    case True
    let ?m0 = "m\<lparr>qm_ctr := t_ctr tk\<rparr>"
    obtain line p' m' where r: "metrics_round ?m0 st (t_stamp tk) p = (line, p', m')"
      by (cases "metrics_round ?m0 st (t_stamp tk) p")
    from metrics_round_log [of ?m0 st "t_stamp tk" p] r
    obtain t1 where t1: "trace m' = trace m @ t1" "sample_log 0 0 t1 = Some 0" by auto
    from Cons.IH [of m' p'] obtain t2 where
      t2: "trace (snd (metrics_loop m' st en p' ticks)) = trace m' @ t2"
          "sample_log 0 0 t2 = Some 0" by blast
    from sample_log_append [OF t1(2), of t2] t2(2)
    have "sample_log 0 0 (t1 @ t2) = Some 0" by simp
    moreover have "trace (snd (metrics_loop m st en p (tk # ticks))) = trace m @ t1 @ t2"
      using True r t1(1) t2(1) by (auto split: prod.splits)
    ultimately show ?thesis by blast
  qed
qed

lemma sample_log_reads:
  "sample_log i e t = Some e' \<Longrightarrow> k < length t \<Longrightarrow> t ! k = Rd c a ok \<Longrightarrow>
     0 < k \<and> c = 0 \<and> a = to_u32 MSR_IA32_QM_CTR
     \<and> (\<exists>v. t ! (k - 1) = Wr 0 (to_u32 MSR_IA32_QM_EVTSEL) v True \<and> take_bit 32 v = word_of_int i)"
proof (induction i e t arbitrary: k rule: sample_log.induct)
  case (2 i e c0 a0 v c' a' ok' t)
  from "2.prems"(1) have ok: "c0 = 0" "a0 = to_u32 MSR_IA32_QM_EVTSEL" "take_bit 32 v = word_of_int i"
      "c' = 0" "a' = to_u32 MSR_IA32_QM_CTR" and rest: "sample_log i (Suc e mod 3) t = Some e'"
    by (auto split: if_splits)
  consider "k = 0" | "k = 1" | "2 \<le> k" by linarith
  then show ?case
  proof cases
    case 1
    with "2.prems"(3) show ?thesis by simp
  next
    case 2
    with "2.prems"(3) ok show ?thesis by simp
  next
    case 3
    then have "k = Suc (Suc (k - 2))" by simp
    then obtain j where j: "k = Suc (Suc j)" ..
    from ok have cond: "c0 = 0 \<and> a0 = to_u32 MSR_IA32_QM_EVTSEL \<and> take_bit 32 v = word_of_int i
        \<and> drop_bit 32 v = of_nat (Suc e) \<and> c' = 0 \<and> a' = to_u32 MSR_IA32_QM_CTR"
      using "2.prems"(1) by (auto split: if_splits)
    have "0 < j \<and> c = 0 \<and> a = to_u32 MSR_IA32_QM_CTR
     \<and> (\<exists>v. t ! (j - 1) = Wr 0 (to_u32 MSR_IA32_QM_EVTSEL) v True \<and> take_bit 32 v = word_of_int i)"
      using "2.prems"(2,3) j by (intro "2.IH" [OF cond rest]) simp_all
    then show ?thesis using j by (cases j) auto
  qed
next
  case (3 i e c0 a0 v t)
  from "3.prems"(1) have cond: "c0 = 0 \<and> a0 = to_u32 MSR_IA32_QM_EVTSEL
      \<and> take_bit 32 v = word_of_int i \<and> drop_bit 32 v = of_nat (Suc e)"
    and rest: "sample_log i (Suc e mod 3) t = Some e'"
    by (auto split: if_splits)
  from "3.prems"(3) obtain j where j: "k = Suc j" by (cases k) auto
  have "0 < j \<and> c = 0 \<and> a = to_u32 MSR_IA32_QM_CTR
     \<and> (\<exists>v. t ! (j - 1) = Wr 0 (to_u32 MSR_IA32_QM_EVTSEL) v True \<and> take_bit 32 v = word_of_int i)"
    using "3.prems"(2,3) j by (intro "3.IH" [OF cond rest]) simp_all
  then show ?case using j by (cases j) auto
qed simp_all


text \<open>
  C8.  In every log the monitoring code produces, a read of the counter register
  comes immediately after an accepted write of a selector to the event-select register
  of the same CPU, and nothing comes between the two.  For an identifier \<open>i\<close> with
  \<open>0 \<le> i < 2 ^ 32\<close>, each reader logs one select-then-read unit whose selector
  carries \<open>i\<close> and the reader's own event id (1 occupancy, 2 total, 3 local).  The logs
  of the two monitoring loops are sequences of such units for identifier 0, the
  events in the order 1, 2, 3 in each round, one unit finished before the next
  starts: samples of different events are different log entries.
\<close>

theorem counter_reads_follow_their_select:
  assumes "0 \<le> i" "i < 2 ^ 32"
  shows "(\<exists>t. trace (snd (snd (rdt_monitor_read_llc_occupancy m i old))) = trace m @ t
              \<and> sample_log i 0 t = Some 1)
       \<and> (\<exists>t. trace (snd (snd (rdt_monitor_read_mbm_total m i old))) = trace m @ t
              \<and> sample_log i 1 t = Some 2)
       \<and> (\<exists>t. trace (snd (snd (rdt_monitor_read_mbm_local m i old))) = trace m @ t
              \<and> sample_log i 2 t = Some 0)
       \<and> (\<exists>t e. trace (snd (rdt_monitor_continuous m d st ticks)) = trace m @ t
              \<and> sample_log 0 0 t = Some e
              \<and> (\<forall>k c a ok. k < length t \<and> t ! k = Rd c a ok \<longrightarrow>
                     0 < k \<and> c = 0 \<and> a = to_u32 MSR_IA32_QM_CTR
                     \<and> (\<exists>v. t ! (k - 1) = Wr 0 (to_u32 MSR_IA32_QM_EVTSEL) v True
                            \<and> take_bit 32 v = 0)))
       \<and> (\<exists>t. trace (snd (monitor_rdt_metrics m d st ticks)) = trace m @ t
              \<and> sample_log 0 0 t = Some 0
              \<and> (\<forall>k c a ok. k < length t \<and> t ! k = Rd c a ok \<longrightarrow>
                     0 < k \<and> c = 0 \<and> a = to_u32 MSR_IA32_QM_CTR
                     \<and> (\<exists>v. t ! (k - 1) = Wr 0 (to_u32 MSR_IA32_QM_EVTSEL) v True
                            \<and> take_bit 32 v = 0)))"
proof (intro conjI)
  show "\<exists>t. trace (snd (snd (rdt_monitor_read_llc_occupancy m i old))) = trace m @ t
              \<and> sample_log i 0 t = Some 1"
    by (rule reader_logs(1) [OF assms])
  show "\<exists>t. trace (snd (snd (rdt_monitor_read_mbm_total m i old))) = trace m @ t
              \<and> sample_log i 1 t = Some 2"
    by (rule reader_logs(2) [OF assms])
  show "\<exists>t. trace (snd (snd (rdt_monitor_read_mbm_local m i old))) = trace m @ t
              \<and> sample_log i 2 t = Some 0"
    by (rule reader_logs(3) [OF assms])
  have reads: "\<forall>k c a ok. k < length t \<and> t ! k = Rd c a ok \<longrightarrow>
                     0 < k \<and> c = 0 \<and> a = to_u32 MSR_IA32_QM_CTR
                     \<and> (\<exists>v. t ! (k - 1) = Wr 0 (to_u32 MSR_IA32_QM_EVTSEL) v True
                            \<and> take_bit 32 v = 0)"
    if "sample_log 0 0 t = Some e" for t e
    using sample_log_reads [OF that] by fastforce
  from rdt_monitor_loop_log
  obtain t e where "trace (snd (rdt_monitor_continuous m d st ticks)) = trace m @ t"
    "sample_log 0 0 t = Some e"
    unfolding rdt_monitor_continuous_def Let_def by blast
  with reads [of t e]
  show "\<exists>t e. trace (snd (rdt_monitor_continuous m d st ticks)) = trace m @ t
              \<and> sample_log 0 0 t = Some e
              \<and> (\<forall>k c a ok. k < length t \<and> t ! k = Rd c a ok \<longrightarrow>
                     0 < k \<and> c = 0 \<and> a = to_u32 MSR_IA32_QM_CTR
                     \<and> (\<exists>v. t ! (k - 1) = Wr 0 (to_u32 MSR_IA32_QM_EVTSEL) v True
                            \<and> take_bit 32 v = 0))"
    by blast
  from metrics_loop_log
  obtain t' where "trace (snd (monitor_rdt_metrics m d st ticks)) = trace m @ t'"
    "sample_log 0 0 t' = Some 0"
    unfolding monitor_rdt_metrics_def Let_def by blast
  with reads [of t' 0]
  show "\<exists>t. trace (snd (monitor_rdt_metrics m d st ticks)) = trace m @ t
              \<and> sample_log 0 0 t = Some 0
              \<and> (\<forall>k c a ok. k < length t \<and> t ! k = Rd c a ok \<longrightarrow>
                     0 < k \<and> c = 0 \<and> a = to_u32 MSR_IA32_QM_CTR
                     \<and> (\<exists>v. t ! (k - 1) = Wr 0 (to_u32 MSR_IA32_QM_EVTSEL) v True
                            \<and> take_bit 32 v = 0))"
    by blast
qed

theorem counter_reads_follow_their_select_witness:
  "(\<exists>t. trace (snd (snd (rdt_monitor_read_llc_occupancy demo_machine 5 0))) = trace demo_machine @ t
              \<and> sample_log 5 0 t = Some 1)
       \<and> (\<exists>t. trace (snd (snd (rdt_monitor_read_mbm_total demo_machine 5 0))) = trace demo_machine @ t
              \<and> sample_log 5 1 t = Some 2)
       \<and> (\<exists>t. trace (snd (snd (rdt_monitor_read_mbm_local demo_machine 5 0))) = trace demo_machine @ t
              \<and> sample_log 5 2 t = Some 0)
       \<and> (\<exists>t e. trace (snd (rdt_monitor_continuous demo_machine 10 1000000
                 [\<lparr>t_running = True, t_check = 1000001, t_stamp = 1000002, t_ctr = (\<lambda>c s. 7)\<rparr>]))
                = trace demo_machine @ t
              \<and> sample_log 0 0 t = Some e
              \<and> (\<forall>k c a ok. k < length t \<and> t ! k = Rd c a ok \<longrightarrow>
                     0 < k \<and> c = 0 \<and> a = to_u32 MSR_IA32_QM_CTR
                     \<and> (\<exists>v. t ! (k - 1) = Wr 0 (to_u32 MSR_IA32_QM_EVTSEL) v True
                            \<and> take_bit 32 v = 0)))
       \<and> (\<exists>t. trace (snd (monitor_rdt_metrics demo_machine 10 1000000
                 [\<lparr>t_running = True, t_check = 1000001, t_stamp = 1000002, t_ctr = (\<lambda>c s. 7)\<rparr>]))
                = trace demo_machine @ t
              \<and> sample_log 0 0 t = Some 0
              \<and> (\<forall>k c a ok. k < length t \<and> t ! k = Rd c a ok \<longrightarrow>
                     0 < k \<and> c = 0 \<and> a = to_u32 MSR_IA32_QM_CTR
                     \<and> (\<exists>v. t ! (k - 1) = Wr 0 (to_u32 MSR_IA32_QM_EVTSEL) v True
                            \<and> take_bit 32 v = 0)))"
  by (rule counter_reads_follow_their_select) simp_all

lemma demo_round_log:
  "trace (snd (rdt_monitor_continuous demo_machine 10 1000000
       [\<lparr>t_running = True, t_check = 1000001, t_stamp = 1000002, t_ctr = (\<lambda>c s. 7)\<rparr>]))
     = [Wr 0 (to_u32 MSR_IA32_QM_EVTSEL) 0x100000000 True, Rd 0 (to_u32 MSR_IA32_QM_CTR) True,
        Wr 0 (to_u32 MSR_IA32_QM_EVTSEL) 0x200000000 True, Rd 0 (to_u32 MSR_IA32_QM_CTR) True,
        Wr 0 (to_u32 MSR_IA32_QM_EVTSEL) 0x300000000 True, Rd 0 (to_u32 MSR_IA32_QM_CTR) True]"
  by (simp add: rdt_monitor_continuous_def rdt_monitor_round_accessible [OF demo_counters_accessible]
      trace_sampled Let_def demo_accessible(4))

end
